theory Spec2Isabelle
  imports Complex_Main "HOL-Library.List_Lexorder" "HOL-Library.Char_ord" "HOL-Library.Multiset"
begin

section \<open>Python primitives used by the four tools\<close>

text \<open>
  Python \<open>float\<close> values are modelled as real numbers with exact arithmetic, Python
  \<open>int\<close> as \<open>int\<close>, \<open>str\<close> and \<open>bytes\<close> as \<open>string\<close>, \<open>Optional[T]\<close> as \<open>T option\<close>.
\<close>

definition digit_char :: "nat \<Rightarrow> char" where
  "digit_char d = ''0123456789'' ! d"

fun str_nat :: "nat \<Rightarrow> string" where
  "str_nat n = (if n < 10 then [digit_char n] else str_nat (n div 10) @ [digit_char (n mod 10)])"

declare str_nat.simps [simp del]

definition str :: "int \<Rightarrow> string" where
  "str i = (if i < 0 then CHR ''-'' # str_nat (nat (- i)) else str_nat (nat i))"

definition truthy_int :: "int option \<Rightarrow> bool" where
  "truthy_int v = (case v of None \<Rightarrow> False | Some i \<Rightarrow> i \<noteq> 0)"

definition truthy_float :: "real option \<Rightarrow> bool" where
  "truthy_float v = (case v of None \<Rightarrow> False | Some x \<Rightarrow> x \<noteq> 0)"

text \<open>\<open>int(x)\<close> on a float truncates toward zero.\<close>

definition int_of_float :: "real \<Rightarrow> int" where
  "int_of_float x = (if 0 \<le> x then \<lfloor>x\<rfloor> else \<lceil>x\<rceil>)"

text \<open>\<open>x % y\<close> on floats with \<open>y \<noteq> 0\<close>: the result has the sign of \<open>y\<close>.\<close>

definition fmod_py :: "real \<Rightarrow> real \<Rightarrow> real" where
  "fmod_py x y = x - y * of_int \<lfloor>x / y\<rfloor>"

text \<open>\<open>round(x)\<close> and \<open>round(x, n)\<close>: ties go to the even neighbour.\<close>

definition round_half_even :: "real \<Rightarrow> int" where
  "round_half_even x =
     (let f = \<lfloor>x\<rfloor>; d = x - of_int f
      in if d < 1 / 2 then f else if 1 / 2 < d then f + 1 else if even f then f else f + 1)"

definition round_ndigits :: "real \<Rightarrow> nat \<Rightarrow> real" where
  "round_ndigits x n = of_int (round_half_even (x * 10 ^ n)) / 10 ^ n"

text \<open>
  The generator \<open>random\<close> is an input of the model: every call site receives the
  underlying draw. \<open>random.random()\<close> returns \<open>u\<close> with \<open>0 \<le> u < 1\<close>;
  \<open>random.uniform(a, b)\<close> is \<open>a + (b - a) * random()\<close> and \<open>random.gauss(mu, sigma)\<close> is
  \<open>mu + z * sigma\<close> for a standard normal draw \<open>z\<close>.
\<close>

definition uniform :: "real \<Rightarrow> real \<Rightarrow> real \<Rightarrow> real" where
  "uniform a b u = a + (b - a) * u"

definition gauss :: "real \<Rightarrow> real \<Rightarrow> real \<Rightarrow> real" where
  "gauss mu sigma z = mu + z * sigma"

definition unit_draw :: "real \<Rightarrow> bool" where
  "unit_draw u = (0 \<le> u \<and> u < 1)"

text \<open>
  Exceptions are values. An awaited call of the WebSocket library either returns or
  raises; \<open>TimeoutError\<close> is what \<open>asyncio.wait_for\<close> raises on expiry, \<open>OtherException\<close>
  stands for any exception class that only an \<open>except Exception\<close> clause catches.
\<close>

datatype exn = KeyboardInterrupt | ConnectionClosed | TimeoutError | JSONDecodeError
  | ZeroDivisionError | OSError | InvalidURI | OtherException

text \<open>
  A text message received from the server, as far as the simulators look at it:
  \<open>json.loads\<close> fails on it with \<open>JSONDecodeError\<close>, or it is a JSON object whose
  \<open>"type"\<close> entry is given, or it is anything else (a JSON array, number or string, on
  which \<open>.get\<close> raises \<open>AttributeError\<close>).
\<close>

datatype server_msg = NotJson | JsonObject "string option" | OtherPayload

section \<open>Telemetry simulator: \<open>drone_websocket_simulator.py\<close>\<close>

definition METERS_PER_DEGREE_LAT :: real where
  "METERS_PER_DEGREE_LAT = 111320"

definition IMAGE_WIDTH :: int where
  "IMAGE_WIDTH = 1920"

definition IMAGE_HEIGHT :: int where
  "IMAGE_HEIGHT = 1080"

definition VIEW_HALF_WIDTH_M :: real where
  "VIEW_HALF_WIDTH_M = 600"

definition KNOTS_TO_MPS :: real where
  "KNOTS_TO_MPS = 514444 / 1000000"

definition radians :: "real \<Rightarrow> real" where
  "radians d = d * pi / 180"

definition meters_per_degree_lon :: "real \<Rightarrow> real" where
  "meters_per_degree_lon latitude_deg =
     (let cos_lat = max (1 / 10 ^ 12) \<bar>cos (radians latitude_deg)\<bar>
      in METERS_PER_DEGREE_LAT * cos_lat)"

definition position_on_circle :: "real \<Rightarrow> real \<Rightarrow> real \<Rightarrow> real \<Rightarrow> real \<times> real" where
  "position_on_circle c_lat c_lon radius angle =
     (let delta_lat = (radius * sin angle) / METERS_PER_DEGREE_LAT;
          delta_lon = (radius * cos angle) / meters_per_degree_lon c_lat
      in (c_lat + delta_lat, c_lon + delta_lon))"

record DroneState =
  drone_id :: string
  type :: string
  motion :: string
  angle_rad :: real
  bearing_rad :: real
  radius_m :: real
  speed_base_mps :: real
  lat :: real
  lon :: real
  base_alt_m :: real
  wobble_m :: real

text \<open>The parsed command line (\<open>argparse.Namespace\<close>) of the telemetry simulator.\<close>

record ws_args =
  center_lat :: real
  center_lon :: real
  interval_s :: real
  updates :: int
  base_radius_m :: real
  altitude_m :: real
  altitude_wobble_m :: real
  num_drones :: int
  speed_range_kt :: "real \<times> real"
  noise_level_m :: real
  miss_rate :: real
  false_positive_rate :: real
  cam_id :: string
  token :: string
  show_responses :: bool

definition validate_args :: "ws_args \<Rightarrow> bool" where
  "validate_args args =
     (if interval_s args \<le> 0 then False
      else if base_radius_m args \<le> 0 then False
      else if num_drones args < 1 then False
      else if fst (speed_range_kt args) \<le> 0 \<or> fst (speed_range_kt args) > snd (speed_range_kt args)
        then False
      else if \<not> (0 \<le> miss_rate args \<and> miss_rate args < 1) then False
      else if \<not> (0 \<le> false_positive_rate args \<and> false_positive_rate args < 1) then False
      else True)"

text \<open>The draws \<open>init_frames_states\<close> makes for one drone.\<close>

record init_draws =
  u_motion :: real
  u_speed_base :: real
  u_start_r :: real
  u_start_theta :: real
  u_heading :: real
  u_radius :: real

definition init_state :: "ws_args \<Rightarrow> nat \<Rightarrow> init_draws \<Rightarrow> DroneState" where
  "init_state args i d =
     (let speed_min = fst (speed_range_kt args) * KNOTS_TO_MPS;
          speed_max = snd (speed_range_kt args) * KNOTS_TO_MPS;
          mot = (if u_motion d < 6 / 10 then ''circle'' else ''straight'');
          speed_base = uniform speed_min speed_max (u_speed_base d);
          start_r = uniform 0 (base_radius_m args * (25 / 100)) (u_start_r d);
          start_theta = uniform 0 (2 * pi) (u_start_theta d);
          offset_lat = (start_r * sin start_theta) / METERS_PER_DEGREE_LAT;
          offset_lon = (start_r * cos start_theta) / meters_per_degree_lon (center_lat args)
      in \<lparr>drone_id = ''sim-'' @ str (int i + 1),
          type = ''unknown'',
          motion = mot,
          angle_rad = (if mot = ''circle'' then uniform 0 (2 * pi) (u_heading d) else 0),
          bearing_rad = (if mot = ''circle'' then 0 else uniform 0 (2 * pi) (u_heading d)),
          radius_m = (if mot = ''circle''
                      then uniform (base_radius_m args * (7 / 10)) (base_radius_m args * (13 / 10)) (u_radius d)
                      else base_radius_m args),
          speed_base_mps = speed_base,
          lat = center_lat args + offset_lat,
          lon = center_lon args + offset_lon,
          base_alt_m = altitude_m args,
          wobble_m = altitude_wobble_m args\<rparr>)"

definition init_frames_states :: "ws_args \<Rightarrow> (nat \<Rightarrow> init_draws) \<Rightarrow> DroneState list" where
  "init_frames_states args idr = map (\<lambda>i. init_state args i (idr i)) [0..<nat (num_drones args)]"

text \<open>One entry of the \<open>"objects"\<close> list and the frame payload handed to \<open>json.dumps\<close>.\<close>

record detection =
  obj_id :: string
  obj_type :: string
  obj_lat :: real
  obj_lng :: real
  obj_alt :: real
  obj_speed_kt :: real

record frame =
  fram_id :: string
  frame_cam_id :: string
  token_id :: string
  timestamp :: string
  image_info :: "int \<times> int"
  objects :: "detection list"

text \<open>What one pass over one track draws, and what one iteration of the loop meets.\<close>

record drone_draws =
  u_speed :: real
  z_north :: real
  z_east :: real
  u_alt :: real
  u_miss :: real
  t_now :: real

record tick_env =
  now_iso :: string
  per_drone :: "nat \<Rightarrow> drone_draws"
  u_fp :: real
  u_dx :: real
  u_dy :: real
  u_speed_fp :: real
  uuid_hex :: string
  u_alt_fp :: real
  send_result :: "exn + unit"
  recv_result :: "exn + server_msg"
  sleep_result :: "exn + unit"

text \<open>
  The body of \<open>for st in states\<close>: the track is mutated, and a detection is appended
  unless the miss draw is below the miss rate. Float division by zero raises.
\<close>

definition update_track :: "ws_args \<Rightarrow> drone_draws \<Rightarrow> DroneState \<Rightarrow> exn + DroneState \<times> detection option" where
  "update_track args d st =
     (let current_speed_mps = speed_base_mps st * uniform (9 / 10) (11 / 10) (u_speed d);
          current_speed_kt = current_speed_mps / KNOTS_TO_MPS;
          dt = interval_s args
      in if motion st = ''circle'' \<and> radius_m st = 0 then Inl ZeroDivisionError
         else
          (let moved =
             (if motion st = ''circle'' then
                (let a = fmod_py (angle_rad st + (current_speed_mps / radius_m st) * dt) (2 * pi);
                     p = position_on_circle (center_lat args) (center_lon args) (radius_m st) a
                 in (st\<lparr>angle_rad := a\<rparr>, p))
              else
                (let delta_north_m = current_speed_mps * dt * cos (bearing_rad st);
                     delta_east_m = current_speed_mps * dt * sin (bearing_rad st);
                     la = lat st + delta_north_m / METERS_PER_DEGREE_LAT;
                     lo = lon st + delta_east_m / meters_per_degree_lon la
                 in (st\<lparr>lat := la, lon := lo\<rparr>, (la, lo))));
               st1 = fst moved;
               noisy =
             (if noise_level_m args > 0 then
                (let noise_north_m = gauss 0 (noise_level_m args) (z_north d);
                     noise_east_m = gauss 0 (noise_level_m args) (z_east d);
                     la = fst (snd moved) + noise_north_m / METERS_PER_DEGREE_LAT
                 in (la, snd (snd moved) + noise_east_m / meters_per_degree_lon la))
              else snd moved);
               wobble_phase = (if motion st1 = ''circle'' then angle_rad st1 else t_now d);
               base_wobble = wobble_m st1 * sin wobble_phase;
               random_alt_variation = uniform (- 2) 2 (u_alt d);
               al = base_alt_m st1 + base_wobble + random_alt_variation
           in Inr (st1,
                if u_miss d < miss_rate args then None
                else Some \<lparr>obj_id = drone_id st1,
                           obj_type = type st1,
                           obj_lat = round_ndigits (fst noisy) 7,
                           obj_lng = round_ndigits (snd noisy) 7,
                           obj_alt = round_ndigits al 2,
                           obj_speed_kt = round_ndigits current_speed_kt 2\<rparr>)))"

text \<open>The \<open>for\<close> loop: track \<open>j\<close> of the list uses the draws \<open>dd j\<close>.\<close>

fun update_tracks :: "ws_args \<Rightarrow> (nat \<Rightarrow> drone_draws) \<Rightarrow> nat \<Rightarrow> DroneState list
    \<Rightarrow> exn + DroneState list \<times> detection list" where
  "update_tracks args dd j [] = Inr ([], [])"
| "update_tracks args dd j (st # rest) =
     (case update_track args (dd j) st of
        Inl e \<Rightarrow> Inl e
      | Inr (st1, det) \<Rightarrow>
          (case update_tracks args dd (Suc j) rest of
             Inl e \<Rightarrow> Inl e
           | Inr (sts, dets) \<Rightarrow>
               Inr (st1 # sts, (case det of None \<Rightarrow> dets | Some ob \<Rightarrow> ob # dets))))"

definition false_positive :: "ws_args \<Rightarrow> tick_env \<Rightarrow> detection list" where
  "false_positive args ev =
     (if u_fp ev < false_positive_rate args then
        (let dx = uniform (- VIEW_HALF_WIDTH_M) VIEW_HALF_WIDTH_M (u_dx ev);
             dy = uniform (- VIEW_HALF_WIDTH_M) VIEW_HALF_WIDTH_M (u_dy ev);
             lat_fp = center_lat args + (dy / METERS_PER_DEGREE_LAT);
             lon_fp = center_lon args + (dx / meters_per_degree_lon (center_lat args));
             speed_fp_mps = uniform 0 2 (u_speed_fp ev);
             speed_fp_kt = speed_fp_mps / KNOTS_TO_MPS
         in [\<lparr>obj_id = ''fp-'' @ take 6 (uuid_hex ev),
              obj_type = ''unknown'',
              obj_lat = round_ndigits lat_fp 7,
              obj_lng = round_ndigits lon_fp 7,
              obj_alt = round_ndigits (altitude_m args + uniform (- 5) 5 (u_alt_fp ev)) 2,
              obj_speed_kt = round_ndigits speed_fp_kt 2\<rparr>])
      else [])"

text \<open>
  The pattern \<open>try: json.loads(await wait_for(ws.recv())) ... .get("type")\<close> with its two
  handlers \<open>except asyncio.TimeoutError\<close> and \<open>except json.JSONDecodeError\<close>: what is not
  caught there leaves the enclosing \<open>try\<close>.
\<close>

definition read_message :: "exn + server_msg \<Rightarrow> exn + unit" where
  "read_message r =
     (case r of
        Inl TimeoutError \<Rightarrow> Inr ()
      | Inl JSONDecodeError \<Rightarrow> Inr ()
      | Inl e \<Rightarrow> Inl e
      | Inr NotJson \<Rightarrow> Inr ()
      | Inr (JsonObject t) \<Rightarrow> Inr ()
      | Inr OtherPayload \<Rightarrow> Inl OtherException)"

text \<open>
  The state of \<open>frames_loop\<close>; \<open>sent\<close> records the messages passed to \<open>ws.send\<close> that
  returned.
\<close>

record loop_state =
  states :: "DroneState list"
  frame_id :: int
  updates_remaining :: "int option"
  sent :: "frame list"

text \<open>
  One iteration of \<open>while updates_remaining is None or updates_remaining > 0\<close>:
  \<open>Inr\<close> is the state at the next loop test, \<open>Inl\<close> an exception with the state it left.
\<close>

definition iteration :: "ws_args \<Rightarrow> tick_env \<Rightarrow> loop_state \<Rightarrow> exn \<times> loop_state + loop_state" where
  "iteration args ev s =
     (case update_tracks args (per_drone ev) 0 (states s) of
        Inl e \<Rightarrow> Inl (e, s)
      | Inr (sts, dets) \<Rightarrow>
          (let objs = dets @ false_positive args ev;
               payload = \<lparr>fram_id = str (frame_id s),
                          frame_cam_id = cam_id args,
                          token_id = token args,
                          timestamp = now_iso ev,
                          image_info = (IMAGE_WIDTH, IMAGE_HEIGHT),
                          objects = objs\<rparr>;
               s1 = s\<lparr>states := sts\<rparr>
           in case send_result ev of
                Inl e \<Rightarrow> Inl (e, s1)
              | Inr _ \<Rightarrow>
                  (let s2 = s1\<lparr>sent := sent s1 @ [payload]\<rparr>
                   in case (if show_responses args then read_message (recv_result ev) else Inr ()) of
                        Inl e \<Rightarrow> Inl (e, s2)
                      | Inr _ \<Rightarrow>
                          (let s3 = s2\<lparr>frame_id := frame_id s2 + 1,
                                       updates_remaining :=
                                         (if truthy_int (updates_remaining s2)
                                          then map_option (\<lambda>n. n - 1) (updates_remaining s2)
                                          else updates_remaining s2)\<rparr>
                           in case sleep_result ev of
                                Inl e \<Rightarrow> Inl (e, s3)
                              | Inr _ \<Rightarrow> Inr s3))))"

text \<open>
  The handlers of \<open>frames_loop\<close>: interruption and a closed connection print the count and
  fall through to \<open>return 0\<close>, every other exception returns 1.
\<close>

definition handler :: "exn \<Rightarrow> int" where
  "handler e = (case e of KeyboardInterrupt \<Rightarrow> 0 | ConnectionClosed \<Rightarrow> 0 | _ \<Rightarrow> 1)"

text \<open>
  A run is observed for a number of iterations: \<open>Finished c s\<close> when the function has
  returned \<open>c\<close>, \<open>Running s\<close> when the loop is still going after that many iterations.
\<close>

datatype ('r, 'a) run = Finished 'r 'a | Running 'a

fun state_of :: "('r, 'a) run \<Rightarrow> 'a" where
  "state_of (Finished c s) = s"
| "state_of (Running s) = s"

definition loop_test :: "loop_state \<Rightarrow> bool" where
  "loop_test s = (case updates_remaining s of None \<Rightarrow> True | Some n \<Rightarrow> 0 < n)"

fun while_loop :: "nat \<Rightarrow> ws_args \<Rightarrow> (nat \<Rightarrow> tick_env) \<Rightarrow> loop_state \<Rightarrow> (int, loop_state) run" where
  "while_loop 0 args env s = (if loop_test s then Running s else Finished 0 s)"
| "while_loop (Suc n) args env s =
     (if loop_test s then
        (case iteration args (env (nat (frame_id s))) s of
           Inl (e, s1) \<Rightarrow> Finished (handler e) s1
         | Inr s1 \<Rightarrow> while_loop n args env s1)
      else Finished 0 s)"

definition frames_loop :: "nat \<Rightarrow> ws_args \<Rightarrow> (nat \<Rightarrow> init_draws) \<Rightarrow> exn + server_msg
    \<Rightarrow> (nat \<Rightarrow> tick_env) \<Rightarrow> (int, loop_state) run" where
  "frames_loop n args idr welcome env =
     (let s0 = \<lparr>states = init_frames_states args idr,
                frame_id = 0,
                updates_remaining = (if updates args > 0 then Some (updates args) else None),
                sent = []\<rparr>
      in case read_message welcome of
           Inl e \<Rightarrow> Finished (handler e) s0
         | Inr _ \<Rightarrow> while_loop n args env s0)"




section \<open>Binary-frame sender: \<open>drone_binary_image_simulator.py\<close>\<close>

text \<open>
  A directory entry as the tools see it: its name, whether it is a regular file, and
  what opening and reading it gives (\<open>None\<close> when that raises).
\<close>

record dir_entry =
  name :: string
  is_file :: bool
  content :: "string option"

datatype 'e fs_path = Missing | NotADirectory | Directory "'e list"

text \<open>\<open>str.rfind\<close> of a character and \<open>PurePath.suffix\<close> of a file name.\<close>

fun rfind :: "char \<Rightarrow> string \<Rightarrow> nat option" where
  "rfind c [] = None"
| "rfind c (x # xs) =
     (case rfind c xs of
        Some i \<Rightarrow> Some (Suc i)
      | None \<Rightarrow> (if x = c then Some 0 else None))"

definition suffix :: "string \<Rightarrow> string" where
  "suffix nm =
     (case rfind CHR ''.'' nm of
        None \<Rightarrow> []
      | Some i \<Rightarrow> (if 0 < i \<and> Suc i < length nm then drop i nm else []))"

definition image_extensions :: "string list" where
  "image_extensions = [''.png'', ''.jpg'', ''.jpeg'', ''.PNG'', ''.JPG'', ''.JPEG'']"

definition get_image_files :: "dir_entry fs_path \<Rightarrow> exn + dir_entry list" where
  "get_image_files directory =
     (case directory of
        Missing \<Rightarrow> Inl OSError
      | NotADirectory \<Rightarrow> Inl OSError
      | Directory entries \<Rightarrow>
          Inr (sort_key name (filter (\<lambda>f. is_file f \<and> suffix (name f) \<in> set image_extensions) entries)))"

record bin_args =
  frames_dir :: "dir_entry fs_path"
  bin_interval_s :: real
  bin_updates :: int
  loop :: bool
  send_metadata_json :: bool
  device_id :: string
  camera_id :: string

datatype ws_message = Metadata string string string | Binary string

record bin_env =
  bin_send :: "exn + unit"
  bin_recv :: "exn + server_msg"
  bin_sleep :: "exn + unit"

record bin_state =
  frame_count :: int
  bin_updates_remaining :: "int option"
  image_index :: nat
  bin_sent :: "ws_message list"

definition bin_loop_test :: "bin_state \<Rightarrow> bool" where
  "bin_loop_test s = (case bin_updates_remaining s of None \<Rightarrow> True | Some n \<Rightarrow> 0 < n)"

text \<open>
  One iteration of the sending loop. \<open>Inr (True, s)\<close> goes on to the next loop test
  (the end of the body or \<open>continue\<close>), \<open>Inr (False, s)\<close> is \<open>break\<close>, \<open>Inl\<close> an exception.
\<close>

definition bin_iteration :: "bin_args \<Rightarrow> dir_entry list \<Rightarrow> bin_env \<Rightarrow> bin_state
    \<Rightarrow> exn \<times> bin_state + bool \<times> bin_state" where
  "bin_iteration args image_files ev s =
     (if image_index s \<ge> length image_files \<and> \<not> loop args then Inr (False, s)
      else
       (let s0 = (if image_index s \<ge> length image_files then s\<lparr>image_index := 0\<rparr> else s)
        in if image_index s0 \<ge> length image_files then Inl (OtherException, s0)
           else
            (case content (image_files ! image_index s0) of
               None \<Rightarrow> Inr (True, s0\<lparr>image_index := image_index s0 + 1\<rparr>)
             | Some image_data \<Rightarrow>
                 (case bin_send ev of
                    Inl e \<Rightarrow> Inl (e, s0)
                  | Inr _ \<Rightarrow>
                      (let s1 = s0\<lparr>bin_sent := bin_sent s0 @ [Binary image_data],
                                   frame_count := frame_count s0 + 1,
                                   image_index := image_index s0 + 1\<rparr>
                       in case read_message (bin_recv ev) of
                            Inl e \<Rightarrow> Inl (e, s1)
                          | Inr _ \<Rightarrow>
                              (let s2 = s1\<lparr>bin_updates_remaining :=
                                            (if truthy_int (bin_updates_remaining s1)
                                             then map_option (\<lambda>n. n - 1) (bin_updates_remaining s1)
                                             else bin_updates_remaining s1)\<rparr>
                               in if bin_loop_test s2 then
                                    (case bin_sleep ev of
                                       Inl e \<Rightarrow> Inl (e, s2)
                                     | Inr _ \<Rightarrow> Inr (True, s2))
                                  else Inr (True, s2)))))))"

text \<open>
  The loop, observed for \<open>n\<close> iterations; iteration \<open>k\<close> of the run meets \<open>env k\<close>. The
  handlers are those of the telemetry simulator, and \<open>break\<close> and the end of the loop
  both reach \<open>return 0\<close>.
\<close>

fun bin_while :: "nat \<Rightarrow> bin_args \<Rightarrow> dir_entry list \<Rightarrow> (nat \<Rightarrow> bin_env) \<Rightarrow> nat \<Rightarrow> bin_state
    \<Rightarrow> (exn + int, bin_state) run" where
  "bin_while 0 args image_files env k s =
     (if bin_loop_test s then Running s else Finished (Inr 0) s)"
| "bin_while (Suc n) args image_files env k s =
     (if bin_loop_test s then
        (case bin_iteration args image_files (env k) s of
           Inl (e, s1) \<Rightarrow> Finished (Inr (handler e)) s1
         | Inr (go_on, s1) \<Rightarrow>
             (if go_on then bin_while n args image_files env (Suc k) s1 else Finished (Inr 0) s1))
      else Finished (Inr 0) s)"

text \<open>
  \<open>send_binary_images\<close>: the result is the returned code (\<open>Inr\<close>) or an exception that
  leaves the function (\<open>Inl\<close>): the welcome and the metadata exchange are outside its
  \<open>try\<close>.
\<close>

definition send_binary_images :: "nat \<Rightarrow> bin_args \<Rightarrow> exn + server_msg \<Rightarrow> string \<Rightarrow> exn + unit
    \<Rightarrow> exn + server_msg \<Rightarrow> (nat \<Rightarrow> bin_env) \<Rightarrow> (exn + int, bin_state) run" where
  "send_binary_images n args welcome now meta_send meta_ack env =
     (let s0 = \<lparr>frame_count = 0,
                bin_updates_remaining = (if bin_updates args > 0 then Some (bin_updates args) else None),
                image_index = 0,
                bin_sent = []\<rparr>
      in case get_image_files (frames_dir args) of
           Inl e \<Rightarrow> Finished (Inr 1) s0
         | Inr image_files \<Rightarrow>
             (if image_files = [] then Finished (Inr 1) s0
              else
               (case read_message welcome of
                  Inl e \<Rightarrow> Finished (Inl e) s0
                | Inr _ \<Rightarrow>
                    (if send_metadata_json args then
                       (case meta_send of
                          Inl e \<Rightarrow> Finished (Inl e) s0
                        | Inr _ \<Rightarrow>
                            (let s1 = s0\<lparr>bin_sent := [Metadata (device_id args) (camera_id args) now]\<rparr>
                             in case read_message meta_ack of
                                  Inl e \<Rightarrow> Finished (Inl e) s1
                                | Inr _ \<Rightarrow> bin_while n args image_files env 0 s1))
                     else bin_while n args image_files env 0 s0))))"



section \<open>Frame extractor: \<open>mp4_to_frames.py\<close>\<close>

text \<open>
  The video as OpenCV presents it: whether the path exists and the capture opens, the
  properties \<open>CAP_PROP_FPS\<close> and \<open>CAP_PROP_FRAME_COUNT\<close>, and what \<open>cap.read()\<close> does
  when the capture stands at a given frame index: it returns a frame, returns
  \<open>ret = False\<close>, or raises.
\<close>

datatype read_result = Decoded | NoFrame | ReadRaises exn

record video =
  path_exists :: bool
  is_opened :: bool
  prop_fps :: real
  prop_frame_count :: real
  read_at :: "nat \<Rightarrow> read_result"

record mp4_args =
  video_file :: video
  format :: string
  interval :: "real option"
  max_frames :: "int option"
  start_time :: real
  end_time :: "real option"
  prefix :: string

definition lower_char :: "char \<Rightarrow> char" where
  "lower_char c =
     (let n = (of_char c :: nat) in if 65 \<le> n \<and> n \<le> 90 then char_of (n + 32) else c)"

definition lower :: "string \<Rightarrow> string" where
  "lower cs = map lower_char cs"

text \<open>The format specification \<open>{n:06d}\<close> for \<open>n \<ge> 0\<close>.\<close>

definition format_06d :: "int \<Rightarrow> string" where
  "format_06d n = replicate (6 - length (str n)) CHR ''0'' @ str n"

record extract_state =
  saved_count :: int
  ex_frame_count :: int
  current_frame :: int
  saved :: "(int \<times> string) list"

text \<open>
  The loop \<open>while current_frame < end_frame\<close>. It ends when the bound is reached, at
  the first read that gives no frame, at an exception, and when \<open>max_frames\<close> frames
  have been written; after each of these the function returns \<open>saved_count\<close>.
\<close>

function extract_loop :: "video \<Rightarrow> string \<Rightarrow> string \<Rightarrow> int option \<Rightarrow> int \<Rightarrow> int
    \<Rightarrow> extract_state \<Rightarrow> extract_state" where
  "extract_loop v pre fmt max_fr end_frame frame_step s =
     (if current_frame s < end_frame then
        (case read_at v (nat (current_frame s)) of
           NoFrame \<Rightarrow> s
         | ReadRaises e \<Rightarrow> s
         | Decoded \<Rightarrow>
             (if ex_frame_count s mod frame_step = 0 then
                (let frame_number = current_frame s;
                     filename = pre @ ''_'' @ format_06d frame_number @ ''.'' @ fmt;
                     s1 = s\<lparr>saved := saved s @ [(frame_number, filename)],
                            saved_count := saved_count s + 1\<rparr>
                 in if truthy_int max_fr \<and> saved_count s1 \<ge> the max_fr then s1
                    else extract_loop v pre fmt max_fr end_frame frame_step
                           (s1\<lparr>ex_frame_count := ex_frame_count s1 + 1,
                               current_frame := current_frame s1 + 1\<rparr>))
              else extract_loop v pre fmt max_fr end_frame frame_step
                     (s\<lparr>ex_frame_count := ex_frame_count s + 1,
                        current_frame := current_frame s + 1\<rparr>)))
      else s)"
  by pat_completeness auto
termination
  by (relation "measure (\<lambda>(v, pre, fmt, max_fr, end_frame, frame_step, s). nat (end_frame - current_frame s))")
    auto

declare extract_loop.simps [simp del]

record extract_plan =
  start_frame :: int
  end_frame :: int
  frame_step :: int

definition plan :: "mp4_args \<Rightarrow> extract_plan" where
  "plan args =
     (let fps = prop_fps (video_file args);
          total_frames = int_of_float (prop_frame_count (video_file args));
          start_frame0 = (if start_time args > 0 then int_of_float (start_time args * fps) else 0);
          end_frame0 = (if truthy_float (end_time args) then int_of_float (the (end_time args) * fps)
                        else total_frames);
          start_frame1 = max 0 (min start_frame0 (total_frames - 1));
          end_frame1 = max (start_frame1 + 1) (min end_frame0 total_frames)
      in \<lparr>start_frame = start_frame1,
          end_frame = end_frame1,
          frame_step = (if truthy_float (interval args)
                        then max 1 (int_of_float (the (interval args) * fps)) else 1)\<rparr>)"

definition extract_frames :: "mp4_args \<Rightarrow> extract_state" where
  "extract_frames args =
     (let none = \<lparr>saved_count = 0, ex_frame_count = 0, current_frame = 0, saved = []\<rparr>;
          fmt0 = lower (format args);
          fmt = (if fmt0 = ''jpg'' then ''jpeg'' else fmt0)
      in if \<not> path_exists (video_file args) then none
         else if fmt \<notin> set [''png'', ''jpeg''] then none
         else if \<not> is_opened (video_file args) then none
         else
           extract_loop (video_file args) (prefix args) fmt (max_frames args)
             (end_frame (plan args)) (frame_step (plan args))
             \<lparr>saved_count = 0, ex_frame_count = 0, current_frame = start_frame (plan args), saved = []\<rparr>)"



section \<open>Batch image resizer: \<open>resize_images.py\<close>\<close>

text \<open>
  An image file as Pillow presents it: \<open>Image.open\<close> raises on it (\<open>None\<close>) or gives an
  image with a size \<open>(width, height)\<close> and a format; \<open>save_raises\<close> tells whether writing
  the resized copy raises. \<open>Image.resize\<close> returns an image of exactly the requested
  size and raises \<open>ValueError\<close> unless both requested dimensions are at least 1.
\<close>

record image =
  img_size :: "int \<times> int"
  save_raises :: bool

record img_entry =
  img_name :: string
  img_is_file :: bool
  img :: "image option"

definition pil_resize :: "int \<times> int \<Rightarrow> exn + int \<times> int" where
  "pil_resize new_size = (if fst new_size < 1 \<or> snd new_size < 1 then Inl OtherException else Inr new_size)"

text \<open>
  \<open>resize_image\<close>: \<open>None\<close> is the result \<open>False\<close>, \<open>Some sz\<close> the result \<open>True\<close> with the
  size of the image written to \<open>output_path\<close>.
\<close>

definition resize_image :: "img_entry \<Rightarrow> int option \<Rightarrow> int option \<Rightarrow> (int \<times> int) option
    \<Rightarrow> (int \<times> int) option" where
  "resize_image input_path target_width target_height target_size =
     (case img input_path of
        None \<Rightarrow> None
      | Some im \<Rightarrow>
          (let original_size = img_size im;
               new_size =
                 (if target_size \<noteq> None then Inr (the target_size)
                  else if truthy_int target_width then
                    (if fst original_size = 0 then Inl ZeroDivisionError
                     else
                      (let ratio = real_of_int (the target_width) / real_of_int (fst original_size);
                           new_height = int_of_float (real_of_int (snd original_size) * ratio)
                       in Inr (the target_width, new_height)))
                  else if truthy_int target_height then
                    (if snd original_size = 0 then Inl ZeroDivisionError
                     else
                      (let ratio = real_of_int (the target_height) / real_of_int (snd original_size);
                           new_width = int_of_float (real_of_int (fst original_size) * ratio)
                       in Inr (new_width, the target_height)))
                  else Inl OtherException)
           in case new_size of
                Inl e \<Rightarrow> None
              | Inr sz \<Rightarrow>
                  (case pil_resize sz of
                     Inl e \<Rightarrow> None
                   | Inr out \<Rightarrow> (if save_raises im then None else Some out))))"


text \<open>
  What \<open>resize_images_in_directory\<close> returns (\<open>success_count\<close>), the files it wrote with
  their new sizes, and the closing line \<open>Successfully resized: a/b images\<close> when it is
  printed.
\<close>

record resize_report =
  success_count :: int
  summary :: "(int \<times> int) option"
  written :: "(string \<times> int \<times> int) list"

text \<open>The \<open>for\<close> loop over \<open>sorted(image_files)\<close>.\<close>

fun resize_each :: "int option \<Rightarrow> int option \<Rightarrow> (int \<times> int) option \<Rightarrow> img_entry list
    \<Rightarrow> int \<times> (string \<times> int \<times> int) list" where
  "resize_each tw th ts [] = (0, [])"
| "resize_each tw th ts (img_file # rest) =
     (let r = resize_each tw th ts rest
      in case resize_image img_file tw th ts of
           None \<Rightarrow> r
         | Some sz \<Rightarrow> (fst r + 1, (img_name img_file, sz) # snd r))"

definition resize_images_in_directory :: "img_entry fs_path \<Rightarrow> int option \<Rightarrow> int option
    \<Rightarrow> (int \<times> int) option \<Rightarrow> resize_report" where
  "resize_images_in_directory dir tw th ts =
     (case dir of
        Missing \<Rightarrow> \<lparr>success_count = 0, summary = None, written = []\<rparr>
      | NotADirectory \<Rightarrow> \<lparr>success_count = 0, summary = None, written = []\<rparr>
      | Directory entries \<Rightarrow>
          (let image_files =
                 filter (\<lambda>f. img_is_file f \<and> suffix (img_name f) \<in> set image_extensions) entries
           in if image_files = [] then \<lparr>success_count = 0, summary = None, written = []\<rparr>
              else if ts = None \<and> \<not> truthy_int tw \<and> \<not> truthy_int th
                then \<lparr>success_count = 0, summary = None, written = []\<rparr>
              else
                (let r = resize_each tw th ts (sort_key img_name image_files)
                 in \<lparr>success_count = fst r,
                     summary = Some (fst r, int (length image_files)),
                     written = snd r\<rparr>)))"



section \<open>Auxiliary predicates and example inputs\<close>

definition frame_ok :: "ws_args \<Rightarrow> tick_env \<Rightarrow> loop_state \<Rightarrow> frame \<Rightarrow> bool" where
  "frame_ok args ev s f = (fram_id f = str (frame_id s) \<and> length (objects f) \<le> length (states s) + 1 \<and>
     ((\<forall>i. \<not> u_miss (per_drone ev i) < miss_rate args) \<and> \<not> u_fp ev < false_positive_rate args
        \<longrightarrow> length (objects f) = length (states s)))"

definition nomiss :: "ws_args \<Rightarrow> tick_env \<Rightarrow> bool" where
  "nomiss args ev = ((\<forall>i. \<not> u_miss (per_drone ev i) < miss_rate args) \<and> \<not> u_fp ev < false_positive_rate args)"

definition log_ok :: "ws_args \<Rightarrow> (nat \<Rightarrow> tick_env) \<Rightarrow> nat \<Rightarrow> frame list \<Rightarrow> bool" where
  "log_ok args env L fs = (\<forall>k<length fs. fram_id (fs ! k) = str (int k) \<and> length (objects (fs ! k)) \<le> L + 1
      \<and> (nomiss args (env k) \<longrightarrow> length (objects (fs ! k)) = L))"

definition loop_inv :: "ws_args \<Rightarrow> (nat \<Rightarrow> tick_env) \<Rightarrow> nat \<Rightarrow> loop_state \<Rightarrow> bool" where
  "loop_inv args env L s = (frame_id s = int (length (sent s)) \<and> length (states s) = L \<and> log_ok args env L (sent s))"

definition quiet_tick :: "ws_args \<Rightarrow> tick_env \<Rightarrow> bool" where
  "quiet_tick args ev = (send_result ev = Inr () \<and>
     (if show_responses args then read_message (recv_result ev) = Inr () else True) \<and>
     sleep_result ev = Inr ())"

definition radii_ok :: "DroneState list \<Rightarrow> bool" where
  "radii_ok sts = list_all (\<lambda>st. motion st = ''circle'' \<longrightarrow> radius_m st \<noteq> 0) sts"

definition example_args :: ws_args where
  "example_args = \<lparr>center_lat = 0, center_lon = 0, interval_s = 1 / 2, updates = 2,
     base_radius_m = 120, altitude_m = 120, altitude_wobble_m = 8, num_drones = 2,
     speed_range_kt = (6, 24), noise_level_m = 0, miss_rate = 0, false_positive_rate = 0,
     cam_id = ''cam'', token = ''tok'', show_responses = False\<rparr>"

definition example_init :: "nat \<Rightarrow> init_draws" where
  "example_init i = \<lparr>u_motion = 0, u_speed_base = 0, u_start_r = 0, u_start_theta = 0,
     u_heading = 0, u_radius = 0\<rparr>"

definition example_env :: "nat \<Rightarrow> tick_env" where
  "example_env k = \<lparr>now_iso = ''2026-01-01T00:00:00+00:00'',
     per_drone = (\<lambda>j. \<lparr>u_speed = 1 / 2, z_north = 0, z_east = 0, u_alt = 1 / 2, u_miss = 1 / 2, t_now = 0\<rparr>),
     u_fp = 1 / 2, u_dx = 0, u_dy = 0, u_speed_fp = 0, uuid_hex = ''0123456789abcdef'', u_alt_fp = 0,
     send_result = Inr (), recv_result = Inl TimeoutError, sleep_result = Inr ()\<rparr>"

definition angles_ok :: "DroneState list \<Rightarrow> bool" where
  "angles_ok sts = list_all (\<lambda>st. motion st = ''circle'' \<longrightarrow> 0 \<le> angle_rad st \<and> angle_rad st < 2 * pi) sts"

definition digit_val :: "char \<Rightarrow> nat" where
  "digit_val c = of_char c - 48"

definition nat_of_digits :: "string \<Rightarrow> nat" where
  "nat_of_digits cs = foldl (\<lambda>a c. 10 * a + digit_val c) 0 cs"

definition example_track :: DroneState where
  "example_track = \<lparr>drone_id = ''sim-1'', type = ''unknown'', motion = ''circle'', angle_rad = 1,
     bearing_rad = 0, radius_m = 100, speed_base_mps = 10, lat = 0, lon = 0, base_alt_m = 120,
     wobble_m = 8\<rparr>"

definition example_draws :: drone_draws where
  "example_draws = \<lparr>u_speed = 1 / 2, z_north = 0, z_east = 0, u_alt = 1 / 2, u_miss = 1 / 2, t_now = 0\<rparr>"


definition bin_quiet :: "bin_env \<Rightarrow> bool" where
  "bin_quiet ev = (bin_send ev = Inr () \<and> read_message (bin_recv ev) = Inr () \<and> bin_sleep ev = Inr ())"

definition is_image_file :: "dir_entry \<Rightarrow> bool" where
  "is_image_file f = (is_file f \<and> suffix (name f) \<in> set image_extensions)"

definition readable_contents :: "dir_entry list \<Rightarrow> string list" where
  "readable_contents fs = map (the \<circ> content) (filter (\<lambda>f. content f \<noteq> None) fs)"

definition example_dir :: "dir_entry list" where
  "example_dir =
    [\<lparr>name = ''b.png'', is_file = True, content = Some ''BB''\<rparr>,
     \<lparr>name = ''notes.txt'', is_file = True, content = Some ''text''\<rparr>,
     \<lparr>name = ''a.jpg'', is_file = True, content = Some ''AA''\<rparr>,
     \<lparr>name = ''c.png'', is_file = True, content = None\<rparr>,
     \<lparr>name = ''B.PNG'', is_file = True, content = Some ''UP''\<rparr>]"

definition example_bin_args :: bin_args where
  "example_bin_args = \<lparr>frames_dir = Directory example_dir, bin_interval_s = 1 / 2, bin_updates = 0,
     loop = False, send_metadata_json = False, device_id = ''sim-device-1'', camera_id = ''sim-camera-1''\<rparr>"

definition example_bin_env :: "nat \<Rightarrow> bin_env" where
  "example_bin_env k = \<lparr>bin_send = Inr (), bin_recv = Inl TimeoutError, bin_sleep = Inr ()\<rparr>"

definition selected :: "int \<Rightarrow> int \<Rightarrow> int \<Rightarrow> int \<Rightarrow> int list" where
  "selected start step frm stop = filter (\<lambda>i. (i - start) mod step = 0) [frm..stop - 1]"

definition capped :: "int option \<Rightarrow> int \<Rightarrow> 'a list \<Rightarrow> 'a list" where
  "capped mf cnt xs = (if truthy_int mf then take (nat (the mf - cnt)) xs else xs)"

definition file_name :: "string \<Rightarrow> string \<Rightarrow> int \<Rightarrow> string" where
  "file_name pre fmt i = pre @ ''_'' @ format_06d i @ ''.'' @ fmt"



definition resizes :: "int option \<Rightarrow> int option \<Rightarrow> (int \<times> int) option \<Rightarrow> img_entry \<Rightarrow> bool" where
  "resizes tw th ts f = (resize_image f tw th ts \<noteq> None)"

definition broken_video :: video where
  "broken_video = \<lparr>path_exists = True, is_opened = True, prop_fps = 10, prop_frame_count = 3,
     read_at = (\<lambda>p. if p = 1 then NoFrame else Decoded)\<rparr>"

definition broken_mp4_args :: mp4_args where
  "broken_mp4_args = \<lparr>video_file = broken_video, format = ''png'', interval = None,
     max_frames = None, start_time = 0, end_time = None, prefix = ''frame''\<rparr>"

definition mixed_dir :: "img_entry list" where
  "mixed_dir =
    [\<lparr>img_name = ''a.png'', img_is_file = True, img = Some \<lparr>img_size = (640, 480), save_raises = False\<rparr>\<rparr>,
     \<lparr>img_name = ''b.png'', img_is_file = True, img = None\<rparr>,
     \<lparr>img_name = ''c.png'', img_is_file = True, img = Some \<lparr>img_size = (100, 50), save_raises = False\<rparr>\<rparr>]"




section \<open>Properties\<close>

subsection \<open>Telemetry simulator: one iteration and the log of sent frames\<close>

lemma fmod_py_range: "0 < y \<Longrightarrow> 0 \<le> fmod_py x y \<and> fmod_py x y < y"
proof -
  assume y: "0 < y"
  have lo: "of_int \<lfloor>x / y\<rfloor> * y \<le> x" using y by (rule floor_divide_lower)
  have hi: "x < (of_int \<lfloor>x / y\<rfloor> + 1) * y" using y by (rule floor_divide_upper)
  show ?thesis using lo hi by (simp add: fmod_py_def algebra_simps)
qed

lemma update_track_circle:
  assumes "motion st = ''circle''" "radius_m st \<noteq> 0"
  shows "\<exists>det. update_track args d st =
     Inr (st\<lparr>angle_rad := fmod_py (angle_rad st
            + (speed_base_mps st * uniform (9 / 10) (11 / 10) (u_speed d) / radius_m st) * interval_s args) (2 * pi)\<rparr>, det)"
  using assms by (simp add: update_track_def Let_def)

lemma update_track_Inr:
  assumes "update_track args d st = Inr (st1, det)"
  shows "motion st1 = motion st" "radius_m st1 = radius_m st"
    "motion st1 = ''circle'' \<longrightarrow> 0 \<le> angle_rad st1 \<and> angle_rad st1 < 2 * pi"
  using assms fmod_py_range[of "2 * pi"]
  by (auto simp: update_track_def Let_def split: if_splits)

lemma update_tracks_Inr:
  "update_tracks args dd j sts = Inr (sts1, dets) \<Longrightarrow>
   length sts1 = length sts \<and> length dets \<le> length sts \<and>
   (\<forall>st \<in> set sts1. motion st = ''circle'' \<longrightarrow> 0 \<le> angle_rad st \<and> angle_rad st < 2 * pi)"
proof (induction sts arbitrary: j sts1 dets)
  case Nil
  then show ?case by simp
next
  case (Cons st rest)
  from Cons.prems obtain st1 det sts2 dets2 where
    a: "update_track args (dd j) st = Inr (st1, det)" and
    b: "update_tracks args dd (Suc j) rest = Inr (sts2, dets2)" and
    c: "sts1 = st1 # sts2" "dets = (case det of None \<Rightarrow> dets2 | Some ob \<Rightarrow> ob # dets2)"
    by (auto split: sum.splits prod.splits)
  from Cons.IH[OF b] update_track_Inr(3)[OF a] c show ?case
    by (auto split: option.splits)
qed

lemma update_tracks_no_miss:
  "update_tracks args dd j sts = Inr (sts1, dets) \<Longrightarrow> \<forall>i. \<not> u_miss (dd i) < miss_rate args \<Longrightarrow>
   length dets = length sts"
proof (induction sts arbitrary: j sts1 dets)
  case Nil
  then show ?case by simp
next
  case (Cons st rest)
  from Cons.prems(1) obtain st1 det sts2 dets2 where
    a: "update_track args (dd j) st = Inr (st1, det)" and
    b: "update_tracks args dd (Suc j) rest = Inr (sts2, dets2)" and
    c: "dets = (case det of None \<Rightarrow> dets2 | Some ob \<Rightarrow> ob # dets2)"
    by (auto split: sum.splits prod.splits)
  from a Cons.prems(2) have "det \<noteq> None"
    by (auto simp: update_track_def Let_def split: if_splits)
  with Cons.IH[OF b Cons.prems(2)] c show ?case by auto
qed

lemma false_positive_length: "length (false_positive args ev) \<le> 1"
  by (simp add: false_positive_def Let_def)

lemma false_positive_none: "\<not> u_fp ev < false_positive_rate args \<Longrightarrow> false_positive args ev = []"
  by (simp add: false_positive_def)

lemma iteration_Inr:
  assumes "iteration args ev s = Inr s1"
  shows "\<exists>f. sent s1 = sent s @ [f] \<and> frame_ok args ev s f"
    "frame_id s1 = frame_id s + 1"
    "length (states s1) = length (states s)"
    "\<forall>st \<in> set (states s1). motion st = ''circle'' \<longrightarrow> 0 \<le> angle_rad st \<and> angle_rad st < 2 * pi"
    "updates_remaining s1 = (if truthy_int (updates_remaining s)
        then map_option (\<lambda>n. n - 1) (updates_remaining s) else updates_remaining s)"
proof -
  from assms obtain sts dets where
    a: "update_tracks args (per_drone ev) 0 (states s) = Inr (sts, dets)"
    by (auto simp: iteration_def split: sum.splits prod.splits)
  note b = update_tracks_Inr[OF a]
  from assms a have s1: "s1 = s\<lparr>states := sts,
       sent := sent s @ [\<lparr>fram_id = str (frame_id s), frame_cam_id = cam_id args, token_id = token args,
          timestamp = now_iso ev, image_info = (IMAGE_WIDTH, IMAGE_HEIGHT),
          objects = dets @ false_positive args ev\<rparr>],
       frame_id := frame_id s + 1,
       updates_remaining := (if truthy_int (updates_remaining s)
        then map_option (\<lambda>n. n - 1) (updates_remaining s) else updates_remaining s)\<rparr>"
    by (auto simp: iteration_def Let_def split: sum.splits if_splits)
  show "\<exists>f. sent s1 = sent s @ [f] \<and> frame_ok args ev s f"
    using b false_positive_length[of args ev] update_tracks_no_miss[OF a] false_positive_none[of ev args]
    by (auto simp: s1 frame_ok_def)
  show "frame_id s1 = frame_id s + 1" by (simp add: s1)
  show "length (states s1) = length (states s)" using b by (simp add: s1)
  show "\<forall>st \<in> set (states s1). motion st = ''circle'' \<longrightarrow> 0 \<le> angle_rad st \<and> angle_rad st < 2 * pi"
    using b by (simp add: s1)
  show "updates_remaining s1 = (if truthy_int (updates_remaining s)
        then map_option (\<lambda>n. n - 1) (updates_remaining s) else updates_remaining s)"
    by (simp add: s1)
qed

lemma iteration_Inl:
  assumes "iteration args ev s = Inl (e, s1)"
  shows "sent s1 = sent s \<or> (\<exists>f. sent s1 = sent s @ [f] \<and> frame_ok args ev s f)"
    "frame_id s1 = frame_id s \<or> frame_id s1 = frame_id s + 1"
    "states s1 = states s \<or>
      (\<forall>st \<in> set (states s1). motion st = ''circle'' \<longrightarrow> 0 \<le> angle_rad st \<and> angle_rad st < 2 * pi)"
proof -
  show "sent s1 = sent s \<or> (\<exists>f. sent s1 = sent s @ [f] \<and> frame_ok args ev s f)"
  proof (cases "update_tracks args (per_drone ev) 0 (states s)")
    case (Inl e')
    with assms show ?thesis by (simp add: iteration_def)
  next
    case (Inr p)
    then obtain sts dets where a: "update_tracks args (per_drone ev) 0 (states s) = Inr (sts, dets)"
      by (cases p) auto
    note b = update_tracks_Inr[OF a]
    have "frame_ok args ev s \<lparr>fram_id = str (frame_id s), frame_cam_id = cam_id args, token_id = token args,
          timestamp = now_iso ev, image_info = (IMAGE_WIDTH, IMAGE_HEIGHT),
          objects = dets @ false_positive args ev\<rparr>"
      using b false_positive_length[of args ev] update_tracks_no_miss[OF a] false_positive_none[of ev args]
      by (auto simp: frame_ok_def)
    with assms a show ?thesis
      by (auto simp: iteration_def Let_def split: sum.splits if_splits)
  qed
  show "frame_id s1 = frame_id s \<or> frame_id s1 = frame_id s + 1"
    using assms by (auto simp: iteration_def Let_def split: sum.splits prod.splits if_splits)
  show "states s1 = states s \<or>
      (\<forall>st \<in> set (states s1). motion st = ''circle'' \<longrightarrow> 0 \<le> angle_rad st \<and> angle_rad st < 2 * pi)"
  proof (cases "update_tracks args (per_drone ev) 0 (states s)")
    case (Inl e')
    with assms show ?thesis by (simp add: iteration_def)
  next
    case (Inr p)
    then obtain sts dets where a: "update_tracks args (per_drone ev) 0 (states s) = Inr (sts, dets)"
      by (cases p) auto
    note b = update_tracks_Inr[OF a]
    from assms a have "states s1 = sts"
      by (auto simp: iteration_def Let_def split: sum.splits if_splits)
    with b show ?thesis by simp
  qed
qed

lemma log_ok_snoc:
  assumes "log_ok args env L fs" "frame_ok args (env (length fs)) s f" "frame_id s = int (length fs)"
    "length (states s) = L"
  shows "log_ok args env L (fs @ [f])"
  using assms unfolding log_ok_def frame_ok_def nomiss_def
  by (auto simp: nth_append less_Suc_eq)

lemma iteration_Inr_inv:
  assumes "loop_inv args env L s" "iteration args (env (nat (frame_id s))) s = Inr s1"
  shows "loop_inv args env L s1"
proof -
  from assms(1) have fid: "frame_id s = int (length (sent s))" and len: "length (states s) = L"
    and lg: "log_ok args env L (sent s)" by (simp_all add: loop_inv_def)
  from iteration_Inr(1)[OF assms(2)] obtain f where
    f: "sent s1 = sent s @ [f]" "frame_ok args (env (nat (frame_id s))) s f" by blast
  from f(2) fid have "frame_ok args (env (length (sent s))) s f" by simp
  from log_ok_snoc[OF lg this fid len] f(1) iteration_Inr(2,3)[OF assms(2)] fid len
  show ?thesis by (simp add: loop_inv_def)
qed

lemma iteration_Inl_inv:
  assumes "loop_inv args env L s" "iteration args (env (nat (frame_id s))) s = Inl (e, s1)"
  shows "log_ok args env L (sent s1)"
proof -
  from assms(1) have fid: "frame_id s = int (length (sent s))" and len: "length (states s) = L"
    and lg: "log_ok args env L (sent s)" by (simp_all add: loop_inv_def)
  from iteration_Inl(1)[OF assms(2)] show ?thesis
  proof
    assume "sent s1 = sent s" with lg show ?thesis by simp
  next
    assume "\<exists>f. sent s1 = sent s @ [f] \<and> frame_ok args (env (nat (frame_id s))) s f"
    then obtain f where f: "sent s1 = sent s @ [f]" "frame_ok args (env (nat (frame_id s))) s f" by blast
    from f(2) fid have "frame_ok args (env (length (sent s))) s f" by simp
    from log_ok_snoc[OF lg this fid len] f(1) show ?thesis by simp
  qed
qed

lemma while_loop_log:
  "loop_inv args env L s \<Longrightarrow> log_ok args env L (sent (state_of (while_loop n args env s)))"
proof (induction n arbitrary: s)
  case 0
  then show ?case by (simp add: loop_inv_def)
next
  case (Suc n)
  show ?case
  proof (cases "loop_test s")
    case False
    with Suc.prems show ?thesis by (simp add: loop_inv_def)
  next
    case True
    show ?thesis
    proof (cases "iteration args (env (nat (frame_id s))) s")
      case (Inl p)
      obtain e s1 where p: "p = (e, s1)" by (cases p)
      from iteration_Inl_inv[OF Suc.prems] Inl p True show ?thesis by simp
    next
      case (Inr s1)
      from Suc.IH[OF iteration_Inr_inv[OF Suc.prems Inr]] Inr True show ?thesis by simp
    qed
  qed
qed

lemma init_length: "length (init_frames_states args idr) = nat (num_drones args)"
  by (simp add: init_frames_states_def)

lemma frames_loop_log:
  "log_ok args env (nat (num_drones args)) (sent (state_of (frames_loop n args idr welcome env)))"
proof (cases "read_message welcome")
  case (Inl e)
  then show ?thesis by (simp add: frames_loop_def log_ok_def)
next
  case (Inr u)
  have "loop_inv args env (nat (num_drones args))
     \<lparr>states = init_frames_states args idr, frame_id = 0,
      updates_remaining = (if updates args > 0 then Some (updates args) else None), sent = []\<rparr>"
    by (simp add: loop_inv_def log_ok_def init_length)
  from while_loop_log[OF this] Inr show ?thesis by (simp add: frames_loop_def)
qed

lemma update_track_total:
  "motion st = ''circle'' \<longrightarrow> radius_m st \<noteq> 0 \<Longrightarrow>
   \<exists>st1 det. update_track args d st = Inr (st1, det) \<and> motion st1 = motion st \<and> radius_m st1 = radius_m st"
  by (auto simp: update_track_def Let_def)

lemma update_tracks_total:
  "radii_ok sts \<Longrightarrow> \<exists>sts1 dets. update_tracks args dd j sts = Inr (sts1, dets) \<and> radii_ok sts1"
proof (induction sts arbitrary: j)
  case Nil
  then show ?case by (simp add: radii_ok_def)
next
  case (Cons st rest)
  from Cons.prems have a: "motion st = ''circle'' \<longrightarrow> radius_m st \<noteq> 0" and b: "radii_ok rest"
    by (simp_all add: radii_ok_def)
  from update_track_total[OF a, of args "dd j"] obtain st1 det where
    c: "update_track args (dd j) st = Inr (st1, det)" "motion st1 = motion st" "radius_m st1 = radius_m st"
    by blast
  from Cons.IH[OF b, of "Suc j"] obtain sts1 dets where
    d: "update_tracks args dd (Suc j) rest = Inr (sts1, dets)" "radii_ok sts1" by blast
  from a c d show ?case by (simp add: radii_ok_def)
qed

lemma iteration_quiet:
  assumes "radii_ok (states s)" "quiet_tick args ev"
  shows "\<exists>s1. iteration args ev s = Inr s1 \<and> radii_ok (states s1)"
proof -
  from update_tracks_total[OF assms(1), of args "per_drone ev" 0] obtain sts1 dets where
    a: "update_tracks args (per_drone ev) 0 (states s) = Inr (sts1, dets)" "radii_ok sts1" by blast
  from assms(2) have q: "send_result ev = Inr ()" "sleep_result ev = Inr ()"
    "show_responses args \<Longrightarrow> read_message (recv_result ev) = Inr ()"
    by (simp_all add: quiet_tick_def split: if_splits)
  show ?thesis
    using a q by (cases "show_responses args") (simp_all add: iteration_def Let_def)
qed

lemma while_loop_count:
  assumes "updates_remaining s = Some (int m)" "radii_ok (states s)" "0 \<le> frame_id s"
    "\<forall>k<m. quiet_tick args (env (nat (frame_id s) + k))" "m \<le> n"
  shows "\<exists>s1. while_loop n args env s = Finished 0 s1 \<and> length (sent s1) = length (sent s) + m
      \<and> frame_id s1 = frame_id s + int m \<and> updates_remaining s1 = Some 0"
  using assms
proof (induction m arbitrary: n s)
  case 0
  then show ?case by (cases n) (simp_all add: loop_test_def)
next
  case (Suc m)
  from Suc.prems(5) obtain n1 where n: "n = Suc n1" "m \<le> n1" by (cases n) auto
  from Suc.prems(1) have lt: "loop_test s" by (simp add: loop_test_def)
  from Suc.prems(4) have q0: "quiet_tick args (env (nat (frame_id s)))" by force
  from iteration_quiet[OF Suc.prems(2) q0] obtain s1 where
    it: "iteration args (env (nat (frame_id s))) s = Inr s1" and r1: "radii_ok (states s1)" by blast
  note facts = iteration_Inr[OF it]
  from facts(5) Suc.prems(1) have ur: "updates_remaining s1 = Some (int m)"
    by (simp add: truthy_int_def)
  from facts(2) Suc.prems(3) have f1: "0 \<le> frame_id s1" "nat (frame_id s1) = Suc (nat (frame_id s))"
    by simp_all
  have q1: "\<forall>k<m. quiet_tick args (env (nat (frame_id s1) + k))"
  proof (intro allI impI)
    fix k assume "k < m"
    then have "Suc k < Suc m" by simp
    with Suc.prems(4) have "quiet_tick args (env (nat (frame_id s) + Suc k))" by blast
    then show "quiet_tick args (env (nat (frame_id s1) + k))" by (simp add: f1)
  qed
  from Suc.IH[OF ur r1 f1(1) q1 n(2)] obtain s2 where
    s2: "while_loop n1 args env s1 = Finished 0 s2" "length (sent s2) = length (sent s1) + m"
      "frame_id s2 = frame_id s1 + int m" "updates_remaining s2 = Some 0" by blast
  from facts(1) have "length (sent s1) = length (sent s) + 1" by auto
  with s2 facts(2) lt it n show ?case by simp
qed

lemma init_radii:
  assumes "validate_args args" "\<forall>i. 0 \<le> u_radius (idr i)"
  shows "radii_ok (init_frames_states args idr)"
proof -
  from assms(1) have r: "0 < base_radius_m args" by (simp add: validate_args_def split: if_splits)
  have "0 < uniform (base_radius_m args * (7 / 10)) (base_radius_m args * (13 / 10)) (u_radius (idr i))" for i
  proof -
    have "0 \<le> u_radius (idr i)" using assms(2) by simp
    then have "0 \<le> base_radius_m args * (6 / 10) * u_radius (idr i)" using r by simp
    moreover have "uniform (base_radius_m args * (7 / 10)) (base_radius_m args * (13 / 10)) (u_radius (idr i))
       = base_radius_m args * (7 / 10) + base_radius_m args * (6 / 10) * u_radius (idr i)"
      by (simp add: uniform_def algebra_simps)
    ultimately show ?thesis using r by simp
  qed
  then have "radius_m (init_state args i (idr i)) \<noteq> 0" for i
    using r by (simp add: init_state_def Let_def less_imp_neq[THEN not_sym])
  then show ?thesis by (simp add: radii_ok_def init_frames_states_def list_all_iff)
qed

lemma ex_run: "map fram_id (sent (state_of (frames_loop 2 example_args example_init (Inl TimeoutError) example_env)))
   = [''0'', ''1'']"
  apply (simp add: frames_loop_def read_message_def numeral_2_eq_2 loop_test_def example_args_def)
  apply (simp add: iteration_def init_frames_states_def upt_rec init_state_def example_init_def Let_def
      update_track_def uniform_def example_env_def truthy_int_def loop_test_def str_def str_nat.simps digit_char_def split: sum.splits prod.splits)
  done

lemma digit_val_digit_char: "d < 10 \<Longrightarrow> digit_val (digit_char d) = d"
proof -
  assume "d < 10"
  then have "d = 0 \<or> d = 1 \<or> d = 2 \<or> d = 3 \<or> d = 4 \<or> d = 5 \<or> d = 6 \<or> d = 7 \<or> d = 8 \<or> d = 9"
    by arith
  then show ?thesis
    by (elim disjE) (simp_all add: digit_val_def digit_char_def)
qed

lemma nat_of_digits_str_nat: "nat_of_digits (str_nat n) = n"
proof (induction n rule: str_nat.induct)
  case (1 n)
  show ?case
  proof (cases "n < 10")
    case True
    then show ?thesis
      by (subst str_nat.simps) (simp add: nat_of_digits_def digit_val_digit_char)
  next
    case False
    have "n mod 10 < 10" by simp
    then have dv: "digit_val (digit_char (n mod 10)) = n mod 10" by (rule digit_val_digit_char)
    from False 1 have ih: "nat_of_digits (str_nat (n div 10)) = n div 10" by simp
    have "nat_of_digits (str_nat n) = 10 * nat_of_digits (str_nat (n div 10)) + digit_val (digit_char (n mod 10))"
      using False by (subst str_nat.simps) (simp add: nat_of_digits_def)
    with ih dv show ?thesis by simp
  qed
qed

lemma str_int_inj: "str (int a) = str (int b) \<Longrightarrow> a = b"
proof -
  assume "str (int a) = str (int b)"
  then have "str_nat a = str_nat b" by (simp add: str_def)
  then have "nat_of_digits (str_nat a) = nat_of_digits (str_nat b)" by simp
  then show ?thesis by (simp add: nat_of_digits_str_nat)
qed

lemma log_ok_distinct: "log_ok args env L fs \<Longrightarrow> distinct (map fram_id fs)"
  unfolding log_ok_def distinct_conv_nth
  by (auto dest: str_int_inj)

lemma update_tracks_angles:
  "update_tracks args dd j sts = Inr (sts1, dets) \<Longrightarrow> angles_ok sts1"
  using update_tracks_Inr[of args dd j sts sts1 dets] by (simp add: angles_ok_def list_all_iff)

lemma iteration_Inr_angles: "iteration args ev s = Inr s1 \<Longrightarrow> angles_ok (states s1)"
  using iteration_Inr(4)[of args ev s s1] by (simp add: angles_ok_def list_all_iff)

lemma iteration_Inl_angles:
  assumes "iteration args ev s = Inl (e, s1)"
  shows "(states s1 = states s \<and> frame_id s1 = frame_id s) \<or>
     (angles_ok (states s1) \<and> (frame_id s1 = frame_id s \<or> frame_id s1 = frame_id s + 1))"
proof (cases "update_tracks args (per_drone ev) 0 (states s)")
  case (Inl e')
  with assms show ?thesis by (simp add: iteration_def)
next
  case (Inr p)
  then obtain sts dets where a: "update_tracks args (per_drone ev) 0 (states s) = Inr (sts, dets)"
    by (cases p) auto
  from assms a have "states s1 = sts"
    by (auto simp: iteration_def Let_def split: sum.splits if_splits)
  with update_tracks_angles[OF a] iteration_Inl(2)[OF assms] show ?thesis by simp
qed

lemma while_loop_angles_keep:
  "angles_ok (states s) \<Longrightarrow> angles_ok (states (state_of (while_loop n args env s)))"
proof (induction n arbitrary: s)
  case 0
  then show ?case by simp
next
  case (Suc n)
  show ?case
  proof (cases "loop_test s")
    case False
    with Suc.prems show ?thesis by simp
  next
    case True
    show ?thesis
    proof (cases "iteration args (env (nat (frame_id s))) s")
      case (Inl p)
      obtain e s1 where p: "p = (e, s1)" by (cases p)
      from Inl p have it: "iteration args (env (nat (frame_id s))) s = Inl (e, s1)" by simp
      from iteration_Inl_angles[OF it] it Suc.prems True show ?thesis by auto
    next
      case (Inr s1)
      from Suc.IH[OF iteration_Inr_angles[OF Inr]] Inr True show ?thesis by simp
    qed
  qed
qed

lemma while_loop_angles_after:
  "frame_id s = 0 \<Longrightarrow> 0 < frame_id (state_of (while_loop n args env s)) \<Longrightarrow>
   angles_ok (states (state_of (while_loop n args env s)))"
proof (cases n)
  case 0
  assume "frame_id s = 0" "0 < frame_id (state_of (while_loop n args env s))"
  with 0 show ?thesis by (simp split: if_splits)
next
  case (Suc m)
  assume f0: "frame_id s = 0" and pos: "0 < frame_id (state_of (while_loop n args env s))"
  show ?thesis
  proof (cases "loop_test s")
    case False
    with Suc f0 pos show ?thesis by simp
  next
    case True
    show ?thesis
    proof (cases "iteration args (env (nat (frame_id s))) s")
      case (Inl p)
      obtain e s1 where p: "p = (e, s1)" by (cases p)
      from Inl p have it: "iteration args (env (nat (frame_id s))) s = Inl (e, s1)" by simp
      from iteration_Inl_angles[OF it] it True Suc f0 pos show ?thesis by auto
    next
      case (Inr s1)
      from while_loop_angles_keep[OF iteration_Inr_angles[OF Inr]] Inr True Suc show ?thesis by simp
    qed
  qed
qed

lemma init_angles:
  assumes "\<forall>i. unit_draw (u_heading (idr i))"
  shows "angles_ok (init_frames_states args idr)"
proof -
  have "0 \<le> uniform 0 (2 * pi) (u_heading (idr i)) \<and> uniform 0 (2 * pi) (u_heading (idr i)) < 2 * pi" for i
  proof -
    from assms have "0 \<le> u_heading (idr i)" "u_heading (idr i) < 1" by (simp_all add: unit_draw_def)
    then show ?thesis by (simp add: uniform_def)
  qed
  then show ?thesis
    by (simp add: angles_ok_def init_frames_states_def list_all_iff init_state_def Let_def)
qed

subsection \<open>Telemetry simulator: the claims\<close>

lemma frames_loop_count:
  assumes "0 < updates args" and "validate_args args" and "\<forall>i. unit_draw (u_radius (idr i))"
    and "read_message welcome = Inr ()"
    and "\<forall>k<nat (updates args). quiet_tick args (env k)"
    and "nat (updates args) \<le> n"
  shows "\<exists>s. frames_loop n args idr welcome env = Finished 0 s
           \<and> length (sent s) = nat (updates args)
           \<and> frame_id s = updates args
           \<and> updates_remaining s = Some 0"
proof -
  let ?s0 = "\<lparr>states = init_frames_states args idr, frame_id = 0,
      updates_remaining = Some (updates args), sent = []\<rparr>"
  from assms(3) have "\<forall>i. 0 \<le> u_radius (idr i)" by (simp add: unit_draw_def)
  with assms(2) have r: "radii_ok (states ?s0)" by (simp add: init_radii)
  from assms(1) have u: "updates_remaining ?s0 = Some (int (nat (updates args)))" by simp
  from assms(5) have q: "\<forall>k<nat (updates args). quiet_tick args (env (nat (frame_id ?s0) + k))" by simp
  have f: "0 \<le> frame_id ?s0" by simp
  from while_loop_count[OF u r f q assms(6)] obtain s1 where
    "while_loop n args env ?s0 = Finished 0 s1" "length (sent s1) = length (sent ?s0) + nat (updates args)"
    "frame_id s1 = frame_id ?s0 + int (nat (updates args))" "updates_remaining s1 = Some 0" by blast
  with assms(1,4) show ?thesis by (simp add: frames_loop_def)
qed

text \<open>
  Claim C1. When \<open>--updates N\<close> with \<open>N > 0\<close> is requested and nothing raises during the run (the
  welcome read, every send, every reply read under \<open>--show-responses\<close> and every sleep
  return normally: no interruption, no closed connection), \<open>frames_loop\<close> sends exactly
  \<open>N\<close> frame messages, one per iteration, leaves the loop and returns 0. The arguments
  are those \<open>main\<close> lets through (\<open>validate_args\<close>), so that no orbit radius is zero.
\<close>

theorem frames_loop_sends_requested_count:
  assumes "0 < updates args" and "validate_args args" and "\<forall>i. unit_draw (u_radius (idr i))"
    and "read_message welcome = Inr ()"
    and "\<forall>k<nat (updates args). quiet_tick args (env k)"
    and "nat (updates args) \<le> n"
  shows "\<exists>s. frames_loop n args idr welcome env = Finished 0 s
           \<and> length (sent s) = nat (updates args)
           \<and> frame_id s = updates args
           \<and> updates_remaining s = Some 0"
  using assms by (rule frames_loop_count)

theorem frames_loop_sends_requested_count_witness:
  "0 < updates example_args \<and> validate_args example_args
   \<and> (\<forall>i. unit_draw (u_radius (example_init i)))
   \<and> read_message (Inl TimeoutError) = Inr ()
   \<and> (\<forall>k. quiet_tick example_args (example_env k))
   \<and> (\<exists>s. frames_loop 2 example_args example_init (Inl TimeoutError) example_env = Finished 0 s
           \<and> length (sent s) = 2 \<and> frame_id s = 2 \<and> updates_remaining s = Some 0)"
  using frames_loop_sends_requested_count [of example_args example_init "Inl TimeoutError" example_env 2]
  by (simp add: example_args_def example_init_def example_env_def validate_args_def unit_draw_def
      read_message_def quiet_tick_def)

text \<open>
  Claim C2. Every frame message sent, in any run observed for any number of iterations, has
  between 0 and \<open>num_drones + 1\<close> objects; with miss rate 0 and false-positive rate 0
  (and draws of \<open>random.random()\<close> in \<open>[0, 1)\<close>) it has exactly \<open>num_drones\<close> objects.
\<close>

theorem frame_object_count:
  "\<forall>k<length (sent (state_of (frames_loop n args idr welcome env))).
     length (objects (sent (state_of (frames_loop n args idr welcome env)) ! k)) \<le> nat (num_drones args) + 1
     \<and> (miss_rate args = 0 \<and> false_positive_rate args = 0
         \<and> (\<forall>i. unit_draw (u_miss (per_drone (env k) i))) \<and> unit_draw (u_fp (env k))
        \<longrightarrow> length (objects (sent (state_of (frames_loop n args idr welcome env)) ! k)) = nat (num_drones args))"
proof (intro allI impI)
  fix k
  let ?fs = "sent (state_of (frames_loop n args idr welcome env))"
  assume k: "k < length ?fs"
  have lg: "log_ok args env (nat (num_drones args)) ?fs" by (rule frames_loop_log)
  from lg k have a: "length (objects (?fs ! k)) \<le> nat (num_drones args) + 1"
    and b: "nomiss args (env k) \<longrightarrow> length (objects (?fs ! k)) = nat (num_drones args)"
    by (simp_all add: log_ok_def)
  have "miss_rate args = 0 \<and> false_positive_rate args = 0
         \<and> (\<forall>i. unit_draw (u_miss (per_drone (env k) i))) \<and> unit_draw (u_fp (env k))
      \<longrightarrow> nomiss args (env k)"
    by (auto simp: nomiss_def unit_draw_def not_less)
  with a b show "length (objects (?fs ! k)) \<le> nat (num_drones args) + 1
     \<and> (miss_rate args = 0 \<and> false_positive_rate args = 0
         \<and> (\<forall>i. unit_draw (u_miss (per_drone (env k) i))) \<and> unit_draw (u_fp (env k))
        \<longrightarrow> length (objects (?fs ! k)) = nat (num_drones args))"
    by blast
qed

lemma example_run_length:
  "length (sent (state_of (frames_loop 2 example_args example_init (Inl TimeoutError) example_env))) = 2"
  using ex_run [THEN arg_cong, of length] by simp

theorem frame_object_count_witness:
  "1 < length (sent (state_of (frames_loop 2 example_args example_init (Inl TimeoutError) example_env)))
   \<and> miss_rate example_args = 0 \<and> false_positive_rate example_args = 0
   \<and> (\<forall>i. unit_draw (u_miss (per_drone (example_env 1) i))) \<and> unit_draw (u_fp (example_env 1))
   \<and> length (objects (sent (state_of (frames_loop 2 example_args example_init (Inl TimeoutError) example_env)) ! 1)) = 2"
proof -
  have a: "1 < length (sent (state_of (frames_loop 2 example_args example_init (Inl TimeoutError) example_env)))"
    by (simp add: example_run_length)
  have b: "miss_rate example_args = 0 \<and> false_positive_rate example_args = 0
     \<and> (\<forall>i. unit_draw (u_miss (per_drone (example_env 1) i))) \<and> unit_draw (u_fp (example_env 1))"
    by (simp add: example_args_def example_env_def unit_draw_def)
  have c: "nat (num_drones example_args) = 2" by (simp add: example_args_def)
  from frame_object_count [of 2 example_args example_init "Inl TimeoutError" example_env, rule_format, OF a]
    a b c show ?thesis by simp
qed

text \<open>
  Claim C3. For an orbiting track, one update sets the phase angle to the old angle plus
  \<open>(current speed / radius) * interval\<close>, modulo \<open>2 * pi\<close>; an updated orbiting track has
  its angle in \<open>[0, 2 * pi)\<close>; and so has every orbiting track of every state of the loop
  that is reached after at least one completed iteration, and of every state at all
  when the initial heading draws are in \<open>[0, 1)\<close>.
\<close>

theorem phase_angle_update:
  "(motion st = ''circle'' \<and> radius_m st \<noteq> 0 \<longrightarrow>
      (\<exists>det. update_track args d st =
         Inr (st\<lparr>angle_rad := fmod_py (angle_rad st
                + (speed_base_mps st * uniform (9 / 10) (11 / 10) (u_speed d) / radius_m st) * interval_s args)
                (2 * pi)\<rparr>, det)))
   \<and> (\<forall>st1 det. update_track args d st = Inr (st1, det) \<and> motion st1 = ''circle''
        \<longrightarrow> 0 \<le> angle_rad st1 \<and> angle_rad st1 < 2 * pi)
   \<and> (0 < frame_id (state_of (frames_loop n args idr welcome env))
        \<or> (\<forall>i. unit_draw (u_heading (idr i)))
      \<longrightarrow> (\<forall>tr \<in> set (states (state_of (frames_loop n args idr welcome env))).
             motion tr = ''circle'' \<longrightarrow> 0 \<le> angle_rad tr \<and> angle_rad tr < 2 * pi))"
proof (intro conjI)
  show "motion st = ''circle'' \<and> radius_m st \<noteq> 0 \<longrightarrow>
      (\<exists>det. update_track args d st =
         Inr (st\<lparr>angle_rad := fmod_py (angle_rad st
                + (speed_base_mps st * uniform (9 / 10) (11 / 10) (u_speed d) / radius_m st) * interval_s args)
                (2 * pi)\<rparr>, det))"
    using update_track_circle[of st args d] by blast
  show "\<forall>st1 det. update_track args d st = Inr (st1, det) \<and> motion st1 = ''circle''
        \<longrightarrow> 0 \<le> angle_rad st1 \<and> angle_rad st1 < 2 * pi"
    using update_track_Inr(3)[of args d st] by blast
  let ?s0 = "\<lparr>states = init_frames_states args idr, frame_id = 0,
      updates_remaining = (if updates args > 0 then Some (updates args) else None), sent = []\<rparr>"
  let ?r = "state_of (frames_loop n args idr welcome env)"
  have "angles_ok (states ?r)"
    if h: "0 < frame_id ?r \<or> (\<forall>i. unit_draw (u_heading (idr i)))"
  proof (cases "read_message welcome")
    case (Inl e)
    then have r: "?r = ?s0" by (simp add: frames_loop_def)
    with h have "\<forall>i. unit_draw (u_heading (idr i))" by simp
    from init_angles[OF this, of args] r show ?thesis by simp
  next
    case (Inr u)
    then have r: "?r = state_of (while_loop n args env ?s0)" by (simp add: frames_loop_def)
    from h show ?thesis
    proof
      assume "0 < frame_id ?r"
      with r have "0 < frame_id (state_of (while_loop n args env ?s0))" by simp
      from while_loop_angles_after[OF _ this] r show ?thesis by simp
    next
      assume "\<forall>i. unit_draw (u_heading (idr i))"
      from init_angles[OF this, of args] have "angles_ok (states ?s0)" by simp
      from while_loop_angles_keep[OF this] r show ?thesis by simp
    qed
  qed
  then show "0 < frame_id ?r \<or> (\<forall>i. unit_draw (u_heading (idr i)))
      \<longrightarrow> (\<forall>tr \<in> set (states ?r). motion tr = ''circle'' \<longrightarrow> 0 \<le> angle_rad tr \<and> angle_rad tr < 2 * pi)"
    by (simp add: angles_ok_def list_all_iff)
qed

lemma example_run_frame_id:
  "frame_id (state_of (frames_loop 2 example_args example_init (Inl TimeoutError) example_env)) = 2"
  apply (simp add: frames_loop_def read_message_def numeral_2_eq_2 loop_test_def example_args_def)
  apply (simp add: iteration_def init_frames_states_def upt_rec init_state_def example_init_def Let_def
      update_track_def uniform_def example_env_def truthy_int_def loop_test_def split: sum.splits prod.splits)
  done

lemma example_run_motion:
  "map motion (states (state_of (frames_loop 2 example_args example_init (Inl TimeoutError) example_env)))
     = [''circle'', ''circle'']"
  apply (simp add: frames_loop_def read_message_def numeral_2_eq_2 loop_test_def example_args_def)
  apply (simp add: iteration_def init_frames_states_def upt_rec init_state_def example_init_def Let_def
      update_track_def uniform_def example_env_def truthy_int_def loop_test_def split: sum.splits prod.splits)
  done

theorem phase_angle_update_witness:
  "motion example_track = ''circle'' \<and> radius_m example_track \<noteq> 0
   \<and> (\<exists>det. update_track example_args example_draws example_track =
         Inr (example_track\<lparr>angle_rad := fmod_py (1 + 1 / 20) (2 * pi)\<rparr>, det))
   \<and> 0 < frame_id (state_of (frames_loop 2 example_args example_init (Inl TimeoutError) example_env))
   \<and> list_all (\<lambda>tr. motion tr = ''circle'' \<and> 0 \<le> angle_rad tr \<and> angle_rad tr < 2 * pi)
        (states (state_of (frames_loop 2 example_args example_init (Inl TimeoutError) example_env)))"
proof -
  note t = phase_angle_update [of example_track example_args example_draws 2 example_init
      "Inl TimeoutError" example_env]
  have a: "motion example_track = ''circle'' \<and> radius_m example_track \<noteq> 0"
    by (simp add: example_track_def)
  have b: "0 < frame_id (state_of (frames_loop 2 example_args example_init (Inl TimeoutError) example_env))"
    by (simp add: example_run_frame_id)
  have c: "\<forall>tr \<in> set (states (state_of (frames_loop 2 example_args example_init (Inl TimeoutError) example_env))).
      motion tr = ''circle''"
    using example_run_motion [THEN arg_cong, of set] by auto
  from t a have x: "\<exists>det. update_track example_args example_draws example_track =
      Inr (example_track\<lparr>angle_rad := fmod_py (angle_rad example_track
                + (speed_base_mps example_track * uniform (9 / 10) (11 / 10) (u_speed example_draws)
                    / radius_m example_track) * interval_s example_args) (2 * pi)\<rparr>, det)"
    by blast
  have e: "angle_rad example_track
                + (speed_base_mps example_track * uniform (9 / 10) (11 / 10) (u_speed example_draws)
                    / radius_m example_track) * interval_s example_args = 1 + 1 / 20"
    by (simp add: example_track_def example_draws_def example_args_def uniform_def)
  from x have d: "\<exists>det. update_track example_args example_draws example_track =
         Inr (example_track\<lparr>angle_rad := fmod_py (1 + 1 / 20) (2 * pi)\<rparr>, det)" by (simp only: e)
  from t b c have "\<forall>tr \<in> set (states (state_of (frames_loop 2 example_args example_init (Inl TimeoutError) example_env))).
      motion tr = ''circle'' \<and> 0 \<le> angle_rad tr \<and> angle_rad tr < 2 * pi"
    by blast
  with a b d show ?thesis by (simp add: list_all_iff)
qed


text \<open>
  Claim C10. In any run, observed for any number of iterations, the message at position \<open>k\<close>
  (counting from 0) of the sequence of frames sent carries \<open>"fram_id" = str(k)\<close>; the
  identifiers of a run are pairwise distinct.
\<close>

theorem fram_id_sequence:
  "(\<forall>k<length (sent (state_of (frames_loop n args idr welcome env))).
      fram_id (sent (state_of (frames_loop n args idr welcome env)) ! k) = str (int k))
   \<and> distinct (map fram_id (sent (state_of (frames_loop n args idr welcome env))))"
proof -
  have lg: "log_ok args env (nat (num_drones args)) (sent (state_of (frames_loop n args idr welcome env)))"
    by (rule frames_loop_log)
  from lg log_ok_distinct[OF lg] show ?thesis by (simp add: log_ok_def)
qed

theorem fram_id_sequence_witness:
  "1 < length (sent (state_of (frames_loop 2 example_args example_init (Inl TimeoutError) example_env)))
   \<and> fram_id (sent (state_of (frames_loop 2 example_args example_init (Inl TimeoutError) example_env)) ! 1) = ''1''"
proof -
  have a: "1 < length (sent (state_of (frames_loop 2 example_args example_init (Inl TimeoutError) example_env)))"
    by (simp add: example_run_length)
  from fram_id_sequence [of 2 example_args example_init "Inl TimeoutError" example_env, THEN conjunct1,
      rule_format, OF a] a
  show ?thesis by (simp add: str_def str_nat.simps digit_char_def)
qed

subsection \<open>Image resizer: the new size\<close>





subsection \<open>Binary-frame sender: one pass over the directory\<close>

lemma readable_contents_Cons:
  "readable_contents (f # fs) = (case content f of None \<Rightarrow> readable_contents fs
      | Some d \<Rightarrow> d # readable_contents fs)"
  by (simp add: readable_contents_def split: option.splits)

lemma bin_iteration_end:
  "length image_files \<le> image_index s \<Longrightarrow> \<not> loop args \<Longrightarrow>
   bin_iteration args image_files ev s = Inr (False, s)"
  by (simp add: bin_iteration_def)

lemma bin_iteration_unreadable:
  "image_index s < length image_files \<Longrightarrow> content (image_files ! image_index s) = None \<Longrightarrow>
   bin_iteration args image_files ev s = Inr (True, s\<lparr>image_index := image_index s + 1\<rparr>)"
  by (simp add: bin_iteration_def Let_def)

lemma bin_iteration_sends:
  assumes "image_index s < length image_files" "content (image_files ! image_index s) = Some d"
    "bin_quiet ev" "bin_updates_remaining s = None"
  shows "bin_iteration args image_files ev s =
     Inr (True, s\<lparr>bin_sent := bin_sent s @ [Binary d], frame_count := frame_count s + 1,
                 image_index := image_index s + 1\<rparr>)"
  using assms
  by (simp add: bin_iteration_def Let_def bin_quiet_def truthy_int_def bin_loop_test_def)

lemma bin_while_once_through:
  assumes "bin_updates_remaining s = None" "\<not> loop args" "\<forall>j<length image_files. bin_quiet (env j)"
    "image_index s \<le> length image_files" "length image_files - image_index s = m" "m < n"
    "k = image_index s"
  shows "\<exists>s1. bin_while n args image_files env k s = Finished (Inr 0) s1
      \<and> bin_sent s1 = bin_sent s @ map Binary (readable_contents (drop (image_index s) image_files))
      \<and> frame_count s1 = frame_count s + int (length (readable_contents (drop (image_index s) image_files)))"
  using assms
proof (induction m arbitrary: n k s)
  case 0
  then obtain n1 where n: "n = Suc n1" by (cases n) auto
  from 0 have e: "length image_files \<le> image_index s" by simp
  from 0 have t: "bin_loop_test s" by (simp add: bin_loop_test_def)
  from bin_iteration_end[OF e "0.prems"(2)] t e show ?case
    by (simp add: n readable_contents_def)
next
  case (Suc m)
  then obtain n1 where n: "n = Suc n1" "m < n1" by (cases n) auto
  from Suc.prems have i: "image_index s < length image_files" by simp
  from Suc.prems have t: "bin_loop_test s" by (simp add: bin_loop_test_def)
  let ?f = "image_files ! image_index s"
  have dr: "drop (image_index s) image_files = ?f # drop (Suc (image_index s)) image_files"
    using i by (simp add: Cons_nth_drop_Suc)
  show ?case
  proof (cases "content ?f")
    case None
    let ?s1 = "s\<lparr>image_index := image_index s + 1\<rparr>"
    have it: "bin_iteration args image_files (env k) s = Inr (True, ?s1)"
      using i None by (rule bin_iteration_unreadable)
    have "\<exists>s2. bin_while n1 args image_files env (Suc k) ?s1 = Finished (Inr 0) s2
      \<and> bin_sent s2 = bin_sent ?s1 @ map Binary (readable_contents (drop (image_index ?s1) image_files))
      \<and> frame_count s2 = frame_count ?s1 + int (length (readable_contents (drop (image_index ?s1) image_files)))"
      using Suc.prems i n by (intro Suc.IH) simp_all
    then show ?thesis
      using t it None by (auto simp: n dr readable_contents_Cons)
  next
    case (Some d)
    let ?s1 = "s\<lparr>bin_sent := bin_sent s @ [Binary d], frame_count := frame_count s + 1,
                 image_index := image_index s + 1\<rparr>"
    have q: "bin_quiet (env k)" using Suc.prems(3,7) i by simp
    have it: "bin_iteration args image_files (env k) s = Inr (True, ?s1)"
      using i Some q Suc.prems(1) by (rule bin_iteration_sends)
    have "\<exists>s2. bin_while n1 args image_files env (Suc k) ?s1 = Finished (Inr 0) s2
      \<and> bin_sent s2 = bin_sent ?s1 @ map Binary (readable_contents (drop (image_index ?s1) image_files))
      \<and> frame_count s2 = frame_count ?s1 + int (length (readable_contents (drop (image_index ?s1) image_files)))"
      using Suc.prems i n by (intro Suc.IH) simp_all
    then show ?thesis
      using t it Some by (auto simp: n dr readable_contents_Cons)
  qed
qed

lemma get_image_files_Directory:
  "get_image_files (Directory entries) = Inr fs \<Longrightarrow>
   sorted (map name fs) \<and> mset fs = mset (filter is_image_file entries)"
  by (auto simp: get_image_files_def is_image_file_def[abs_def])

lemma example_get_image_files:
  "get_image_files (Directory example_dir) = Inr
    [\<lparr>name = ''B.PNG'', is_file = True, content = Some ''UP''\<rparr>,
     \<lparr>name = ''a.jpg'', is_file = True, content = Some ''AA''\<rparr>,
     \<lparr>name = ''b.png'', is_file = True, content = Some ''BB''\<rparr>,
     \<lparr>name = ''c.png'', is_file = True, content = None\<rparr>]"
  by (simp add: get_image_files_def example_dir_def suffix_def image_extensions_def)

lemma send_binary_images_once:
  assumes "bin_updates args = 0" and "\<not> loop args"
    and "frames_dir args = Directory entries"
    and "get_image_files (frames_dir args) = Inr image_files"
    and "read_message welcome = Inr ()"
    and "send_metadata_json args \<longrightarrow> meta_send = Inr () \<and> read_message meta_ack = Inr ()"
    and "\<forall>k<length image_files. bin_quiet (env k)"
    and "length image_files < n"
  shows "sorted (map name image_files)
     \<and> mset image_files = mset (filter is_image_file entries)
     \<and> (\<exists>s. send_binary_images n args welcome now meta_send meta_ack env
              = Finished (Inr (if image_files = [] then 1 else 0)) s
          \<and> (if image_files = [] then bin_sent s = []
              else bin_sent s =
                (if send_metadata_json args then [Metadata (device_id args) (camera_id args) now] else [])
                @ map Binary (readable_contents image_files))
          \<and> (image_files \<noteq> [] \<longrightarrow> frame_count s = int (length (readable_contents image_files))))"
proof -
  from assms(3,4) have g: "get_image_files (Directory entries) = Inr image_files" by simp
  note srt = get_image_files_Directory[OF g]
  let ?s0 = "\<lparr>frame_count = 0, bin_updates_remaining = None, image_index = 0, bin_sent = []\<rparr>"
  let ?m = "[Metadata (device_id args) (camera_id args) now]"
  have run: "\<exists>s1. bin_while n args image_files env 0 (?s0\<lparr>bin_sent := pre\<rparr>) = Finished (Inr 0) s1
      \<and> bin_sent s1 = pre @ map Binary (readable_contents image_files)
      \<and> frame_count s1 = int (length (readable_contents image_files))" for pre
    using bin_while_once_through[where s = "?s0\<lparr>bin_sent := pre\<rparr>" and args = args and env = env
        and image_files = image_files and m = "length image_files" and n = n and k = 0]
      assms(2,7,8) by simp
  show ?thesis
  proof (cases "image_files = []")
    case True
    with srt assms(1,4) show ?thesis by (simp add: send_binary_images_def)
  next
    case False
    show ?thesis
    proof (cases "send_metadata_json args")
      case True
      from run[of ?m] obtain s1 where
        "bin_while n args image_files env 0 (?s0\<lparr>bin_sent := ?m\<rparr>) = Finished (Inr 0) s1"
        "bin_sent s1 = ?m @ map Binary (readable_contents image_files)"
        "frame_count s1 = int (length (readable_contents image_files))" by blast
      with srt False True assms(1,4,5,6) show ?thesis
        by (simp add: send_binary_images_def)
    next
      case nometa: False
      from run[of "[]"] obtain s1 where
        "bin_while n args image_files env 0 (?s0\<lparr>bin_sent := []\<rparr>) = Finished (Inr 0) s1"
        "bin_sent s1 = [] @ map Binary (readable_contents image_files)"
        "frame_count s1 = int (length (readable_contents image_files))" by blast
      with srt False nometa assms(1,4,5) show ?thesis
        by (simp add: send_binary_images_def)
    qed
  qed
qed

text \<open>
  Claim C9. With \<open>--updates 0\<close> and without \<open>--loop\<close>, and when nothing raises during the run,
  the sender transmits the content of every readable image file of the frames directory
  exactly once, as one binary message each, in ascending order of file name, and then
  leaves the loop by itself and returns 0; a file that cannot be read is passed over and
  is not counted in \<open>frame_count\<close>. (With no image file at all the function returns 1
  before the loop.)
\<close>

theorem send_all_images_once:
  assumes "bin_updates args = 0" and "\<not> loop args"
    and "frames_dir args = Directory entries"
    and "get_image_files (frames_dir args) = Inr image_files"
    and "read_message welcome = Inr ()"
    and "send_metadata_json args \<longrightarrow> meta_send = Inr () \<and> read_message meta_ack = Inr ()"
    and "\<forall>k<length image_files. bin_quiet (env k)"
    and "length image_files < n"
  shows "sorted (map name image_files)
     \<and> mset image_files = mset (filter is_image_file entries)
     \<and> (\<exists>s. send_binary_images n args welcome now meta_send meta_ack env
              = Finished (Inr (if image_files = [] then 1 else 0)) s
          \<and> (if image_files = [] then bin_sent s = []
              else bin_sent s =
                (if send_metadata_json args then [Metadata (device_id args) (camera_id args) now] else [])
                @ map Binary (readable_contents image_files))
          \<and> (image_files \<noteq> [] \<longrightarrow> frame_count s = int (length (readable_contents image_files))))"
  using assms by (rule send_binary_images_once)

theorem send_all_images_once_witness:
  "bin_updates example_bin_args = 0 \<and> \<not> loop example_bin_args
   \<and> frames_dir example_bin_args = Directory example_dir
   \<and> read_message (Inl TimeoutError) = Inr ()
   \<and> \<not> send_metadata_json example_bin_args
   \<and> (\<forall>k. bin_quiet (example_bin_env k))
   \<and> (\<exists>s. send_binary_images 5 example_bin_args (Inl TimeoutError) ''now'' (Inr ()) (Inl TimeoutError)
             example_bin_env = Finished (Inr 0) s
        \<and> bin_sent s = [Binary ''UP'', Binary ''AA'', Binary ''BB'']
        \<and> frame_count s = 3)"
proof -
  have a: "bin_updates example_bin_args = 0" "\<not> loop example_bin_args"
    "frames_dir example_bin_args = Directory example_dir"
    "send_metadata_json example_bin_args \<longrightarrow> Inr () = (Inr () :: exn + unit) \<and> read_message (Inl TimeoutError) = Inr ()"
    "\<not> send_metadata_json example_bin_args"
    by (simp_all add: example_bin_args_def)
  have b: "read_message (Inl TimeoutError) = Inr ()" by (simp add: read_message_def)
  have c: "\<forall>k. bin_quiet (example_bin_env k)"
    by (simp add: bin_quiet_def example_bin_env_def read_message_def)
  then have c1: "\<forall>k<length
    [\<lparr>name = ''B.PNG'', is_file = True, content = Some ''UP''\<rparr>,
     \<lparr>name = ''a.jpg'', is_file = True, content = Some ''AA''\<rparr>,
     \<lparr>name = ''b.png'', is_file = True, content = Some ''BB''\<rparr>,
     \<lparr>name = ''c.png'', is_file = True, content = None\<rparr>]. bin_quiet (example_bin_env k)" by blast
  have g: "get_image_files (frames_dir example_bin_args) = Inr
    [\<lparr>name = ''B.PNG'', is_file = True, content = Some ''UP''\<rparr>,
     \<lparr>name = ''a.jpg'', is_file = True, content = Some ''AA''\<rparr>,
     \<lparr>name = ''b.png'', is_file = True, content = Some ''BB''\<rparr>,
     \<lparr>name = ''c.png'', is_file = True, content = None\<rparr>]"
    using example_get_image_files by (simp add: a(3))
  from send_all_images_once [OF a(1) a(2) a(3) g b a(4) c1, of 5 "''now''"] a b c
  show ?thesis by (simp add: readable_contents_def)
qed

subsection \<open>Frame extractor: the frames selected\<close>

lemma capped_Nil: "capped mf cnt [] = []"
  by (simp add: capped_def)

lemma capped_Cons_last:
  "truthy_int mf \<Longrightarrow> cnt < the mf \<Longrightarrow> the mf \<le> cnt + 1 \<Longrightarrow> capped mf cnt (x # xs) = [x]"
proof -
  assume a: "truthy_int mf" "cnt < the mf" "the mf \<le> cnt + 1"
  then have "nat (the mf - cnt) = Suc 0" by simp
  with a(1) show ?thesis by (simp add: capped_def)
qed

lemma capped_Cons_more:
  "\<not> (truthy_int mf \<and> the mf \<le> cnt + 1) \<Longrightarrow> capped mf cnt (x # xs) = x # capped mf (cnt + 1) xs"
proof (cases "truthy_int mf")
  case False
  then show ?thesis by (simp add: capped_def)
next
  case True
  assume "\<not> (truthy_int mf \<and> the mf \<le> cnt + 1)"
  with True have "cnt + 1 < the mf" by simp
  then have "nat (the mf - cnt) = Suc (nat (the mf - (cnt + 1)))" by simp
  with True show ?thesis by (simp add: capped_def)
qed

lemma selected_empty: "selected start step stop stop = []"
  by (simp add: selected_def)

lemma selected_step:
  "c < stop \<Longrightarrow> selected start step c stop =
     (if (c - start) mod step = 0 then c # selected start step (c + 1) stop
      else selected start step (c + 1) stop)"
  by (simp add: selected_def upto_rec1[of c "stop - 1"])

lemma extract_loop_saved:
  assumes "nat (stop - current_frame s) = k"
    and "ex_frame_count s = current_frame s - start"
    and "current_frame s \<le> stop" and "stop \<le> en"
    and "\<forall>i. current_frame s \<le> i \<and> i < stop \<longrightarrow> read_at v (nat i) = Decoded"
    and "stop = en \<or> read_at v (nat stop) \<noteq> Decoded"
    and "truthy_int mf \<longrightarrow> saved_count s < the mf"
  shows "saved (extract_loop v pre fmt mf en step s) =
       saved s @ map (\<lambda>i. (i, file_name pre fmt i))
         (capped mf (saved_count s) (selected start step (current_frame s) stop))
     \<and> saved_count (extract_loop v pre fmt mf en step s) =
       saved_count s + int (length (capped mf (saved_count s) (selected start step (current_frame s) stop)))"
  using assms
proof (induction k arbitrary: s)
  case 0
  then have c: "current_frame s = stop" by simp
  have "extract_loop v pre fmt mf en step s = s"
  proof (cases "stop = en")
    case True
    with c show ?thesis by (subst extract_loop.simps) simp
  next
    case False
    with "0.prems"(6) have r: "read_at v (nat stop) \<noteq> Decoded" by simp
    from False "0.prems"(4) have "stop < en" by simp
    with c r show ?thesis
      by (subst extract_loop.simps) (simp split: read_result.splits)
  qed
  with c show ?case by (simp add: selected_empty capped_Nil)
next
  case (Suc k)
  let ?c = "current_frame s"
  from Suc.prems(1) have lt: "?c < stop" by simp
  with Suc.prems(4) have lte: "?c < en" by simp
  from Suc.prems(5) lt have rd: "read_at v (nat ?c) = Decoded" by simp
  note sel = selected_step[OF lt, of start step]
  show ?case
  proof (cases "(?c - start) mod step = 0")
    case False
    let ?s2 = "s\<lparr>ex_frame_count := ex_frame_count s + 1, current_frame := ?c + 1\<rparr>"
    from False Suc.prems(2) have nm: "ex_frame_count s mod step \<noteq> 0" by simp
    have unf: "extract_loop v pre fmt mf en step s = extract_loop v pre fmt mf en step ?s2"
      using lte rd nm by (subst extract_loop.simps) simp
    have "saved (extract_loop v pre fmt mf en step ?s2) =
       saved ?s2 @ map (\<lambda>i. (i, file_name pre fmt i))
         (capped mf (saved_count ?s2) (selected start step (current_frame ?s2) stop))
     \<and> saved_count (extract_loop v pre fmt mf en step ?s2) =
       saved_count ?s2 + int (length (capped mf (saved_count ?s2) (selected start step (current_frame ?s2) stop)))"
      using Suc.prems lt by (intro Suc.IH) simp_all
    with unf sel False show ?thesis by simp
  next
    case True
    let ?s1 = "s\<lparr>saved := saved s @ [(?c, file_name pre fmt ?c)], saved_count := saved_count s + 1\<rparr>"
    from True Suc.prems(2) have m0: "ex_frame_count s mod step = 0" by simp
    show ?thesis
    proof (cases "truthy_int mf \<and> the mf \<le> saved_count s + 1")
      case cap: True
      have unf: "extract_loop v pre fmt mf en step s = ?s1"
        using lte rd m0 cap by (subst extract_loop.simps) (simp add: Let_def file_name_def)
      from cap Suc.prems(7) have "capped mf (saved_count s) (?c # selected start step (?c + 1) stop) = [?c]"
        by (intro capped_Cons_last) simp_all
      with unf sel True show ?thesis by simp
    next
      case nocap: False
      let ?s2 = "?s1\<lparr>ex_frame_count := ex_frame_count ?s1 + 1, current_frame := current_frame ?s1 + 1\<rparr>"
      have unf: "extract_loop v pre fmt mf en step s = extract_loop v pre fmt mf en step ?s2"
        using lte rd m0 nocap by (subst extract_loop.simps) (auto simp: Let_def file_name_def)
      have ih: "saved (extract_loop v pre fmt mf en step ?s2) =
         saved ?s2 @ map (\<lambda>i. (i, file_name pre fmt i))
           (capped mf (saved_count ?s2) (selected start step (current_frame ?s2) stop))
       \<and> saved_count (extract_loop v pre fmt mf en step ?s2) =
         saved_count ?s2 + int (length (capped mf (saved_count ?s2) (selected start step (current_frame ?s2) stop)))"
        using Suc.prems lt nocap by (intro Suc.IH) auto
      from nocap have "capped mf (saved_count s) (?c # selected start step (?c + 1) stop)
          = ?c # capped mf (saved_count s + 1) (selected start step (?c + 1) stop)"
        by (rule capped_Cons_more)
      with unf ih sel True show ?thesis by simp
    qed
  qed
qed





lemma extract_frames_run:
  assumes "path_exists (video_file args)" and "is_opened (video_file args)"
    and "lower (format args) \<in> {''png'', ''jpg'', ''jpeg''}"
    and "truthy_int (max_frames args) \<longrightarrow> 0 < the (max_frames args)"
    and "start_frame (plan args) \<le> stop" and "stop \<le> end_frame (plan args)"
    and "\<forall>i. start_frame (plan args) \<le> i \<and> i < stop \<longrightarrow> read_at (video_file args) (nat i) = Decoded"
    and "stop = end_frame (plan args) \<or> read_at (video_file args) (nat stop) \<noteq> Decoded"
  shows "map fst (saved (extract_frames args)) =
       capped (max_frames args) 0
         (selected (start_frame (plan args)) (frame_step (plan args)) (start_frame (plan args)) stop)"
    and "saved_count (extract_frames args) = int (length (saved (extract_frames args)))"
proof -
  let ?fmt = "if lower (format args) = ''jpg'' then ''jpeg'' else lower (format args)"
  let ?s0 = "\<lparr>saved_count = 0, ex_frame_count = 0, current_frame = start_frame (plan args), saved = []\<rparr>"
  have ef: "extract_frames args = extract_loop (video_file args) (prefix args) ?fmt (max_frames args)
      (end_frame (plan args)) (frame_step (plan args)) ?s0"
  proof (cases "lower (format args) = ''jpg''")
    case True
    with assms(1,2) show ?thesis by (simp add: extract_frames_def Let_def)
  next
    case False
    with assms(3) have "lower (format args) = ''png'' \<or> lower (format args) = ''jpeg''" by simp
    with assms(1,2) False show ?thesis by (auto simp: extract_frames_def Let_def)
  qed
  have "saved (extract_loop (video_file args) (prefix args) ?fmt (max_frames args)
      (end_frame (plan args)) (frame_step (plan args)) ?s0) =
       saved ?s0 @ map (\<lambda>i. (i, file_name (prefix args) ?fmt i))
         (capped (max_frames args) (saved_count ?s0)
            (selected (start_frame (plan args)) (frame_step (plan args)) (current_frame ?s0) stop))
     \<and> saved_count (extract_loop (video_file args) (prefix args) ?fmt (max_frames args)
      (end_frame (plan args)) (frame_step (plan args)) ?s0) =
       saved_count ?s0 + int (length (capped (max_frames args) (saved_count ?s0)
            (selected (start_frame (plan args)) (frame_step (plan args)) (current_frame ?s0) stop)))"
    using assms(4-8) by (intro extract_loop_saved[OF refl]) simp_all
  with ef show "map fst (saved (extract_frames args)) =
       capped (max_frames args) 0
         (selected (start_frame (plan args)) (frame_step (plan args)) (start_frame (plan args)) stop)"
    and "saved_count (extract_frames args) = int (length (saved (extract_frames args)))"
    by (simp_all add: comp_def)
qed


lemma lower_png: "lower ''png'' = ''png''"
  by (simp add: lower_def lower_char_def)




subsection \<open>Batch tools: the failure of one item\<close>

lemma resize_each_eq:
  "resize_each tw th ts files =
     (int (length (filter (resizes tw th ts) files)),
      map (\<lambda>f. (img_name f, the (resize_image f tw th ts))) (filter (resizes tw th ts) files))"
  by (induction files) (auto simp: resizes_def Let_def split: option.splits)

lemma capped_subset: "set (capped mf cnt xs) \<subseteq> set xs"
  by (auto simp: capped_def dest: in_set_takeD)

lemma selected_bounds: "i \<in> set (selected start step frm stop) \<Longrightarrow> frm \<le> i \<and> i < stop"
  by (auto simp: selected_def)

lemma broken_plan: "plan broken_mp4_args = \<lparr>start_frame = 0, end_frame = 3, frame_step = 1\<rparr>"
  by (simp add: plan_def broken_mp4_args_def broken_video_def Let_def int_of_float_def truthy_float_def)

lemma broken_saved: "map fst (saved (extract_frames broken_mp4_args)) = [0]"
proof -
  have "map fst (saved (extract_frames broken_mp4_args)) =
       capped (max_frames broken_mp4_args) 0
         (selected (start_frame (plan broken_mp4_args)) (frame_step (plan broken_mp4_args))
            (start_frame (plan broken_mp4_args)) 1)"
  proof (rule extract_frames_run(1))
    show "path_exists (video_file broken_mp4_args)" "is_opened (video_file broken_mp4_args)"
      by (simp_all add: broken_mp4_args_def broken_video_def)
    show "lower (format broken_mp4_args) \<in> {''png'', ''jpg'', ''jpeg''}"
      by (simp add: broken_mp4_args_def lower_png)
    show "truthy_int (max_frames broken_mp4_args) \<longrightarrow> 0 < the (max_frames broken_mp4_args)"
      by (simp add: broken_mp4_args_def truthy_int_def)
    show "start_frame (plan broken_mp4_args) \<le> 1" "1 \<le> end_frame (plan broken_mp4_args)"
      by (simp_all add: broken_plan)
    show "\<forall>i. start_frame (plan broken_mp4_args) \<le> i \<and> i < 1
        \<longrightarrow> read_at (video_file broken_mp4_args) (nat i) = Decoded"
      by (simp add: broken_plan) (simp add: broken_mp4_args_def broken_video_def)
    show "1 = end_frame (plan broken_mp4_args) \<or> read_at (video_file broken_mp4_args) (nat 1) \<noteq> Decoded"
      by (simp add: broken_mp4_args_def broken_video_def)
  qed
  moreover have "\<not> truthy_int (max_frames broken_mp4_args)"
    by (simp add: broken_mp4_args_def truthy_int_def)
  ultimately show ?thesis
    by (simp add: broken_plan capped_def selected_def)
qed

text \<open>
  Claim C7 as stated fails for the extractor: with three frames of which the second does
  not decode, only frame 0 is written; the run does not go on to frame 2, which decodes.
\<close>

theorem undecodable_frame_counterexample:
  "read_at (video_file broken_mp4_args) 1 = NoFrame
   \<and> read_at (video_file broken_mp4_args) 2 = Decoded
   \<and> start_frame (plan broken_mp4_args) = 0 \<and> end_frame (plan broken_mp4_args) = 3
   \<and> frame_step (plan broken_mp4_args) = 1
   \<and> map fst (saved (extract_frames broken_mp4_args)) = [0]"
  using broken_saved by (simp add: broken_plan) (simp add: broken_mp4_args_def broken_video_def)

text \<open>
  Claim C7, as amended. In the resizer a failure on one image is caught and that image is
  passed over: the loop writes exactly the images for which \<open>resize_image\<close> succeeds, in
  order, whatever happens to the others (an image that cannot be opened always fails),
  and the run returns their number and reports it out of the number of image files
  found. In the extractor a frame that cannot be decoded ends the run: no frame at or
  after it is written, and the run returns the number of frames written before it.
\<close>

theorem batch_item_failures:
  "resize_each tw th ts files =
     (int (length (filter (\<lambda>f. resize_image f tw th ts \<noteq> None) files)),
      map (\<lambda>f. (img_name f, the (resize_image f tw th ts)))
        (filter (\<lambda>f. resize_image f tw th ts \<noteq> None) files))
   \<and> (\<forall>f. img f = None \<longrightarrow> resize_image f tw th ts = None)
   \<and> (files = sort_key img_name
         (filter (\<lambda>f. img_is_file f \<and> suffix (img_name f) \<in> set image_extensions) entries)
       \<and> files \<noteq> [] \<and> (ts \<noteq> None \<or> truthy_int tw \<or> truthy_int th)
      \<longrightarrow> success_count (resize_images_in_directory (Directory entries) tw th ts)
            = int (length (filter (\<lambda>f. resize_image f tw th ts \<noteq> None) files))
        \<and> summary (resize_images_in_directory (Directory entries) tw th ts)
            = Some (int (length (filter (\<lambda>f. resize_image f tw th ts \<noteq> None) files)), int (length files)))
   \<and> (path_exists (video_file args) \<and> is_opened (video_file args)
       \<and> lower (format args) \<in> {''png'', ''jpg'', ''jpeg''}
       \<and> (truthy_int (max_frames args) \<longrightarrow> 0 < the (max_frames args))
       \<and> start_frame (plan args) \<le> bad \<and> bad < end_frame (plan args)
       \<and> (\<forall>i. start_frame (plan args) \<le> i \<and> i < bad \<longrightarrow> read_at (video_file args) (nat i) = Decoded)
       \<and> read_at (video_file args) (nat bad) \<noteq> Decoded
      \<longrightarrow> (\<forall>i \<in> set (map fst (saved (extract_frames args))). i < bad)
        \<and> saved_count (extract_frames args) = int (length (saved (extract_frames args))))"
proof (intro conjI impI)
  show "resize_each tw th ts files =
     (int (length (filter (\<lambda>f. resize_image f tw th ts \<noteq> None) files)),
      map (\<lambda>f. (img_name f, the (resize_image f tw th ts)))
        (filter (\<lambda>f. resize_image f tw th ts \<noteq> None) files))"
    using resize_each_eq[of tw th ts files] by (simp add: resizes_def[abs_def])
  show "\<forall>f. img f = None \<longrightarrow> resize_image f tw th ts = None"
    by (simp add: resize_image_def)
next
  assume a: "files = sort_key img_name
         (filter (\<lambda>f. img_is_file f \<and> suffix (img_name f) \<in> set image_extensions) entries)
       \<and> files \<noteq> [] \<and> (ts \<noteq> None \<or> truthy_int tw \<or> truthy_int th)"
  then have ne: "filter (\<lambda>f. img_is_file f \<and> suffix (img_name f) \<in> set image_extensions) entries \<noteq> []"
    by auto
  have len: "length files = length (filter (\<lambda>f. img_is_file f \<and> suffix (img_name f) \<in> set image_extensions) entries)"
    using a by simp
  from a have sz: "\<not> (ts = None \<and> \<not> truthy_int tw \<and> \<not> truthy_int th)" by blast
  have r: "resize_images_in_directory (Directory entries) tw th ts =
      \<lparr>success_count = fst (resize_each tw th ts files),
       summary = Some (fst (resize_each tw th ts files), int (length files)),
       written = snd (resize_each tw th ts files)\<rparr>"
    using a ne sz len by (simp add: resize_images_in_directory_def Let_def)
  show "success_count (resize_images_in_directory (Directory entries) tw th ts)
            = int (length (filter (\<lambda>f. resize_image f tw th ts \<noteq> None) files))"
    by (simp add: r resize_each_eq resizes_def[abs_def])
  show "summary (resize_images_in_directory (Directory entries) tw th ts)
            = Some (int (length (filter (\<lambda>f. resize_image f tw th ts \<noteq> None) files)), int (length files))"
    by (simp add: r resize_each_eq resizes_def[abs_def])
next
  assume h: "path_exists (video_file args) \<and> is_opened (video_file args)
       \<and> lower (format args) \<in> {''png'', ''jpg'', ''jpeg''}
       \<and> (truthy_int (max_frames args) \<longrightarrow> 0 < the (max_frames args))
       \<and> start_frame (plan args) \<le> bad \<and> bad < end_frame (plan args)
       \<and> (\<forall>i. start_frame (plan args) \<le> i \<and> i < bad \<longrightarrow> read_at (video_file args) (nat i) = Decoded)
       \<and> read_at (video_file args) (nat bad) \<noteq> Decoded"
  then have run: "map fst (saved (extract_frames args)) =
       capped (max_frames args) 0
         (selected (start_frame (plan args)) (frame_step (plan args)) (start_frame (plan args)) bad)"
    by (intro extract_frames_run(1)) simp_all
  show "\<forall>i \<in> set (map fst (saved (extract_frames args))). i < bad"
  proof
    fix i assume "i \<in> set (map fst (saved (extract_frames args)))"
    then have "i \<in> set (selected (start_frame (plan args)) (frame_step (plan args)) (start_frame (plan args)) bad)"
      unfolding run by (rule subsetD[OF capped_subset])
    then show "i < bad" by (simp add: selected_bounds)
  qed
  from h show "saved_count (extract_frames args) = int (length (saved (extract_frames args)))"
    by (intro extract_frames_run(2)[where stop = bad]) simp_all
qed

lemma mixed_files:
  "sort_key img_name (filter (\<lambda>f. img_is_file f \<and> suffix (img_name f) \<in> set image_extensions) mixed_dir)
     = mixed_dir"
  by (simp add: mixed_dir_def suffix_def image_extensions_def)

lemma mixed_resizes:
  "filter (\<lambda>f. resize_image f (Some 320) None None \<noteq> None) mixed_dir =
    [\<lparr>img_name = ''a.png'', img_is_file = True, img = Some \<lparr>img_size = (640, 480), save_raises = False\<rparr>\<rparr>,
     \<lparr>img_name = ''c.png'', img_is_file = True, img = Some \<lparr>img_size = (100, 50), save_raises = False\<rparr>\<rparr>]"
  by (simp add: mixed_dir_def resize_image_def truthy_int_def Let_def pil_resize_def int_of_float_def)

theorem batch_item_failures_witness:
  "mixed_dir \<noteq> [] \<and> truthy_int (Some 320)
   \<and> img (mixed_dir ! 1) = None
   \<and> resize_image (mixed_dir ! 1) (Some 320) None None = None
   \<and> success_count (resize_images_in_directory (Directory mixed_dir) (Some 320) None None) = 2
   \<and> summary (resize_images_in_directory (Directory mixed_dir) (Some 320) None None) = Some (2, 3)
   \<and> path_exists (video_file broken_mp4_args) \<and> is_opened (video_file broken_mp4_args)
   \<and> lower (format broken_mp4_args) = ''png''
   \<and> \<not> truthy_int (max_frames broken_mp4_args)
   \<and> start_frame (plan broken_mp4_args) = 0 \<and> end_frame (plan broken_mp4_args) = 3
   \<and> read_at (video_file broken_mp4_args) (nat 0) = Decoded
   \<and> read_at (video_file broken_mp4_args) (nat 1) \<noteq> Decoded
   \<and> list_all (\<lambda>i. i < 1) (map fst (saved (extract_frames broken_mp4_args)))
   \<and> saved_count (extract_frames broken_mp4_args) = int (length (saved (extract_frames broken_mp4_args)))"
proof -
  note t = batch_item_failures [of "Some 320" None None mixed_dir mixed_dir broken_mp4_args 1]
  have a: "mixed_dir \<noteq> []" "truthy_int (Some 320)" "img (mixed_dir ! 1) = None"
    by (simp_all add: mixed_dir_def truthy_int_def)
  from t a(3) have b: "resize_image (mixed_dir ! 1) (Some 320) None None = None" by blast
  have hr: "mixed_dir = sort_key img_name
         (filter (\<lambda>f. img_is_file f \<and> suffix (img_name f) \<in> set image_extensions) mixed_dir)
       \<and> mixed_dir \<noteq> [] \<and> (None \<noteq> (None :: (int \<times> int) option) \<or> truthy_int (Some 320) \<or> truthy_int None)"
    using a by (simp add: mixed_files)
  from t hr have c: "success_count (resize_images_in_directory (Directory mixed_dir) (Some 320) None None)
            = int (length (filter (\<lambda>f. resize_image f (Some 320) None None \<noteq> None) mixed_dir))"
    "summary (resize_images_in_directory (Directory mixed_dir) (Some 320) None None)
            = Some (int (length (filter (\<lambda>f. resize_image f (Some 320) None None \<noteq> None) mixed_dir)),
                    int (length mixed_dir))"
    by blast+
  have l: "length mixed_dir = 3" by (simp add: mixed_dir_def)
  have n2: "length (filter (\<lambda>f. resize_image f (Some 320) None None \<noteq> None) mixed_dir) = 2"
    by (simp only: mixed_resizes) simp
  have c2: "success_count (resize_images_in_directory (Directory mixed_dir) (Some 320) None None) = 2"
    "summary (resize_images_in_directory (Directory mixed_dir) (Some 320) None None) = Some (2, 3)"
    by (simp_all only: c n2 l) simp_all
  have d: "path_exists (video_file broken_mp4_args)" "is_opened (video_file broken_mp4_args)"
    "lower (format broken_mp4_args) = ''png''" "\<not> truthy_int (max_frames broken_mp4_args)"
    "read_at (video_file broken_mp4_args) (nat 0) = Decoded"
    "read_at (video_file broken_mp4_args) (nat 1) \<noteq> Decoded"
    by (simp_all add: broken_mp4_args_def broken_video_def lower_png truthy_int_def)
  have p: "start_frame (plan broken_mp4_args) = 0" "end_frame (plan broken_mp4_args) = 3"
    by (simp_all add: broken_plan)
  have he: "path_exists (video_file broken_mp4_args) \<and> is_opened (video_file broken_mp4_args)
       \<and> lower (format broken_mp4_args) \<in> {''png'', ''jpg'', ''jpeg''}
       \<and> (truthy_int (max_frames broken_mp4_args) \<longrightarrow> 0 < the (max_frames broken_mp4_args))
       \<and> start_frame (plan broken_mp4_args) \<le> 1 \<and> 1 < end_frame (plan broken_mp4_args)
       \<and> (\<forall>i. start_frame (plan broken_mp4_args) \<le> i \<and> i < 1
            \<longrightarrow> read_at (video_file broken_mp4_args) (nat i) = Decoded)
       \<and> read_at (video_file broken_mp4_args) (nat 1) \<noteq> Decoded"
  proof -
    have "\<forall>i. start_frame (plan broken_mp4_args) \<le> i \<and> i < 1
            \<longrightarrow> read_at (video_file broken_mp4_args) (nat i) = Decoded"
    proof (intro allI impI)
      fix i :: int assume "start_frame (plan broken_mp4_args) \<le> i \<and> i < 1"
      then have "i = 0" by (simp add: p)
      with d(5) show "read_at (video_file broken_mp4_args) (nat i) = Decoded" by simp
    qed
    with d p show ?thesis by simp
  qed
  from t he have e: "\<forall>i \<in> set (map fst (saved (extract_frames broken_mp4_args))). i < 1"
    "saved_count (extract_frames broken_mp4_args) = int (length (saved (extract_frames broken_mp4_args)))"
    by blast+
  from e(1) have e1: "list_all (\<lambda>i. i < 1) (map fst (saved (extract_frames broken_mp4_args)))"
    by (simp add: list_all_iff)
  from a b c2 d p e1 e(2) show ?thesis by simp
qed

subsection \<open>Exit codes\<close>



























end
